theory Spec2Isabelle
  imports Complex_Main "HOL-Library.Multiset"
begin

section \<open>Python values used by the agents\<close>

text \<open>
  A Python \<^verbatim>\<open>str\<close> is a sequence of Unicode code points; the planner tests for the
  bullet U+2022, which is no 8-bit character, so a string is a list of code points.
  \<open>ustr\<close> turns an ASCII literal into such a string.
\<close>

type_synonym pystr = "nat list"

definition ustr :: "string \<Rightarrow> pystr" where
  "ustr cs = map of_char cs"

text \<open>
  The exceptions that cross a function boundary in \<^verbatim>\<open>app/\<close>. The string is the
  message (\<^verbatim>\<open>str(e)\<close>).
\<close>

datatype error =
    EnvironmentError pystr
  | RuntimeError pystr
  | ClientError pystr
  | OtherException pystr
  | IndexError

text \<open>
  A Python \<^verbatim>\<open>float\<close>. Only comparisons, \<^verbatim>\<open>min\<close> and \<^verbatim>\<open>max\<close> are applied to
  floats in the modelled code, and these are exact, so a finite float is its real value;
  rounding of decimal literals is not modelled. The three special values are kept, because
  \<^verbatim>\<open>json.loads\<close> accepts \<^verbatim>\<open>NaN\<close>, \<^verbatim>\<open>Infinity\<close> and \<^verbatim>\<open>-Infinity\<close>.
\<close>

datatype pyfloat = Fin real | PosInf | NegInf | NaN

text \<open>What \<^verbatim>\<open>json.loads\<close> returns. An object is the list of items of the parsed dict.\<close>

datatype json =
    JNull
  | JBool bool
  | JInt int
  | JFloat pyfloat
  | JStr pystr
  | JArr "json list"
  | JObj "(pystr \<times> json) list"

text \<open>
  The library functions the model does not define itself, as one parameter:
  \<^item> \<open>isspace\<close>, \<open>isdigit\<close>: \<^verbatim>\<open>str.isspace\<close> and \<^verbatim>\<open>str.isdigit\<close> on one code
    point, and \<open>lower\<close>: \<^verbatim>\<open>str.lower\<close> on a string (Unicode tables);
  \<^item> \<open>float_of_str\<close>, \<open>int_of_str\<close>: \<^verbatim>\<open>float(s)\<close> and \<^verbatim>\<open>int(s)\<close> on a string,
    \<open>None\<close> where Python raises \<^verbatim>\<open>ValueError\<close>;
  \<^item> \<open>parse_json\<close>: lines 52-53 of \<^verbatim>\<open>evaluator.py\<close>, that is \<^verbatim>\<open>raw.strip()\<close>, the
    removal of a code fence by \<^verbatim>\<open>re.sub\<close>, \<^verbatim>\<open>strip()\<close> again and \<^verbatim>\<open>json.loads\<close>;
    \<open>Inl msg\<close> where one of them raises, with \<open>msg\<close> the text of the exception.
  Every theorem below holds for every such parameter.
\<close>

record pylib =
  isspace :: "nat \<Rightarrow> bool"
  isdigit :: "nat \<Rightarrow> bool"
  lower :: "pystr \<Rightarrow> pystr"
  float_of_str :: "pystr \<Rightarrow> pyfloat option"
  int_of_str :: "pystr \<Rightarrow> int option"
  parse_json :: "pystr \<Rightarrow> pystr + json"

text \<open>
  An ASCII instance, used where a theorem is applied to a concrete input. Its parser knows
  the text \<^verbatim>\<open>[]\<close> and answers every other text as \<^verbatim>\<open>json.loads\<close> answers a text that
  does not start with a JSON value.
\<close>

definition ascii_lib :: pylib where
  "ascii_lib = \<lparr>
     isspace = (\<lambda>c. c = 32 \<or> (9 \<le> c \<and> c \<le> 13)),
     isdigit = (\<lambda>c. 48 \<le> c \<and> c \<le> 57),
     lower = map (\<lambda>c. if 65 \<le> c \<and> c \<le> 90 then c + 32 else c),
     float_of_str = (\<lambda>s. None),
     int_of_str = (\<lambda>s. None),
     parse_json = (\<lambda>s. if s = ustr ''[]'' then Inr (JArr [])
                       else Inl (ustr ''Expecting value: line 1 column 1 (char 0)''))\<rparr>"

fun is_prefix :: "'a list \<Rightarrow> 'a list \<Rightarrow> bool" where
  "is_prefix [] ys = True"
| "is_prefix (x # xs) [] = False"
| "is_prefix (x # xs) (y # ys) = (x = y \<and> is_prefix xs ys)"

text \<open>\<^verbatim>\<open>sub in s\<close> on strings.\<close>

fun contains :: "'a list \<Rightarrow> 'a list \<Rightarrow> bool" where
  "contains sub [] = is_prefix sub []"
| "contains sub (c # cs) = (is_prefix sub (c # cs) \<or> contains sub cs)"

section \<open>The generation client (\<^verbatim>\<open>app/gemini.py\<close>)\<close>

text \<open>
  One call of \<^verbatim>\<open>client.models.generate_content\<close> returns a text, raises
  \<^verbatim>\<open>errors.ClientError\<close>, or raises another exception; the string is \<^verbatim>\<open>str(e)\<close>.
  The provider is a function from the attempt number to what that attempt does.
\<close>

datatype api_reply = Text pystr | RaisesClientError pystr | RaisesOther pystr

definition is_rate_limit :: "pylib \<Rightarrow> pystr \<Rightarrow> bool" where
  "is_rate_limit py error_str \<longleftrightarrow>
     contains (ustr ''429'') error_str
     \<or> contains (ustr ''RESOURCE_EXHAUSTED'') error_str
     \<or> contains (ustr ''quota'') (lower py error_str)"

definition rate_limit_exceeded :: error where
  "rate_limit_exceeded = RuntimeError (ustr
     (''Gemini API rate limit exceeded. Please wait a few minutes and try again. '' @
      ''Consider upgrading your API key or reducing request frequency.''))"

text \<open>
  What a run of \<^verbatim>\<open>generate_text\<close> did: the value returned or the exception raised,
  the number of provider calls, and the arguments of the \<^verbatim>\<open>time.sleep(delay)\<close> calls of
  the retry loop, in order.
\<close>

record gen_run =
  outcome :: "error + pystr"
  attempts :: nat
  backoff_sleeps :: "real list"

text \<open>
  The \<^verbatim>\<open>for attempt in range(max_retries)\<close> loop, with the loop variable, the current
  \<^verbatim>\<open>delay\<close> and the sleeps so far as arguments. Leaving the loop without a return is the
  final \<^verbatim>\<open>raise RuntimeError("Failed to generate text after retries")\<close>.
\<close>

function retry_loop ::
  "pylib \<Rightarrow> (nat \<Rightarrow> api_reply) \<Rightarrow> nat \<Rightarrow> nat \<Rightarrow> real \<Rightarrow> real list \<Rightarrow> gen_run" where
  "retry_loop py api max_retries attempt delay slept =
     (if max_retries \<le> attempt then
        \<lparr>outcome = Inl (RuntimeError (ustr ''Failed to generate text after retries'')),
         attempts = attempt, backoff_sleeps = slept\<rparr>
      else
        (case api attempt of
           Text t \<Rightarrow> \<lparr>outcome = Inr t, attempts = attempt + 1, backoff_sleeps = slept\<rparr>
         | RaisesClientError error_str \<Rightarrow>
             if is_rate_limit py error_str then
               (if attempt < max_retries - 1 then
                  retry_loop py api max_retries (attempt + 1) (min (delay * 2) 30)
                    (slept @ [delay])
                else
                  \<lparr>outcome = Inl rate_limit_exceeded, attempts = attempt + 1,
                   backoff_sleeps = slept\<rparr>)
             else
               \<lparr>outcome = Inl (ClientError error_str), attempts = attempt + 1,
                backoff_sleeps = slept\<rparr>
         | RaisesOther msg \<Rightarrow>
             \<lparr>outcome = Inl (OtherException msg), attempts = attempt + 1,
              backoff_sleeps = slept\<rparr>))"
  by pat_completeness auto
termination
  by (relation "measure (\<lambda>(py, api, max_retries, attempt, delay, slept). max_retries - attempt)")
    auto

declare retry_loop.simps [simp del]

text \<open>
  The throttle before the loop (lines 46-51): with \<open>time_since_last\<close> the time since the
  last request, it sleeps for the rest of the minimum interval of 2. It makes no provider
  call and does not touch \<^verbatim>\<open>delay\<close>.
\<close>

definition throttle_wait :: "real \<Rightarrow> real option" where
  "throttle_wait time_since_last =
     (if time_since_last < 2 then Some (2 - time_since_last) else None)"

definition generate_text :: "pylib \<Rightarrow> (nat \<Rightarrow> api_reply) \<Rightarrow> nat \<Rightarrow> gen_run" where
  "generate_text py api max_retries = retry_loop py api max_retries 0 3 []"

text \<open>The callers use the default \<^verbatim>\<open>max_retries = 3\<close>.\<close>

definition default_max_retries :: nat where
  "default_max_retries = 3"

text \<open>Whether an attempt ends in a rate-limit-class client error.\<close>

fun rate_limited :: "pylib \<Rightarrow> api_reply \<Rightarrow> bool" where
  "rate_limited py (RaisesClientError error_str) = is_rate_limit py error_str"
| "rate_limited py (Text t) = False"
| "rate_limited py (RaisesOther msg) = False"

text \<open>What an attempt that is not rate-limited makes \<^verbatim>\<open>generate_text\<close> return or raise.\<close>

fun final_outcome :: "api_reply \<Rightarrow> error + pystr" where
  "final_outcome (Text t) = Inr t"
| "final_outcome (RaisesClientError error_str) = Inl (ClientError error_str)"
| "final_outcome (RaisesOther msg) = Inl (OtherException msg)"

text \<open>
  The backoff schedule as the specification words it: the delay before retry \<open>i\<close> starts
  at 3 and doubles, capped at 30.
\<close>

definition backoff :: "nat \<Rightarrow> real" where
  "backoff i = min (3 * 2 ^ i) 30"

text \<open>The next \<open>m\<close> values of \<^verbatim>\<open>delay\<close>, starting from \<open>d\<close>, as the loop updates it.\<close>

fun delays_from :: "real \<Rightarrow> nat \<Rightarrow> real list" where
  "delays_from d 0 = []"
| "delays_from d (Suc m) = d # delays_from (min (d * 2) 30) m"

section \<open>The research state (\<^verbatim>\<open>app/state.py\<close>)\<close>

text \<open>
  A source is a dict; the agents read and write the keys below, each of which may be
  absent (\<open>None\<close>). A stored score is a finite float. Each element of \<^verbatim>\<open>sources\<close> is
  taken to be a dict object of its own, as the searcher creates them.
\<close>

record source =
  url :: "pystr option"
  content :: "pystr option"
  source_type :: "pystr option"
  score :: "real option"
  eval_error :: "pystr option"

record research_state =
  topic :: pystr
  plan :: "pystr list"
  current_step :: int
  sources :: "source list"
  report :: "pystr option"
  status :: "pystr option"
  progress :: "real option"

text \<open>
  The result of one \<^verbatim>\<open>generate_text(prompt)\<close> call as an agent sees it: the exception
  raised or the text returned (the \<open>outcome\<close> of a \<open>gen_run\<close>). The prompt goes to the
  provider only, so an agent takes the result of its call as an argument.
\<close>

type_synonym generation = "error + pystr"

section \<open>The planner (\<^verbatim>\<open>app/agents/planner.py\<close>)\<close>

text \<open>\<^verbatim>\<open>output.split("\n")\<close>; the code point of the newline is 10.\<close>

fun split_lines :: "pystr \<Rightarrow> pystr list" where
  "split_lines [] = [[]]"
| "split_lines (c # cs) =
     (if c = 10 then [] # split_lines cs
      else (case split_lines cs of [] \<Rightarrow> [[c]] | l # ls \<Rightarrow> (c # l) # ls))"

definition strip :: "pylib \<Rightarrow> pystr \<Rightarrow> pystr" where
  "strip py s = rev (dropWhile (isspace py) (rev (dropWhile (isspace py) s)))"

definition lstrip_chars :: "pystr \<Rightarrow> pystr \<Rightarrow> pystr" where
  "lstrip_chars chars s = dropWhile (\<lambda>c. c \<in> set chars) s"

definition bullet :: nat where
  "bullet = 8226"

text \<open>The argument of \<^verbatim>\<open>lstrip\<close>: digits, dot, hyphen, bullet, closing bracket, space, tab.\<close>

definition numbering_chars :: pystr where
  "numbering_chars = ustr ''0123456789.-'' @ [bullet] @ ustr '') '' @ [9]"

text \<open>The first loop over the lines: numbered or bulleted lines, with the numbering removed.\<close>

fun numbered_steps :: "pylib \<Rightarrow> pystr list \<Rightarrow> pystr list" where
  "numbered_steps py [] = []"
| "numbered_steps py (l # ls) =
     (let line = strip py l in
      if line \<noteq> [] \<and> (isdigit py (hd line) \<or> is_prefix (ustr ''-'') line
                         \<or> is_prefix [bullet] line)
      then (let clean_line = lstrip_chars numbering_chars line in
            if clean_line \<noteq> [] then clean_line # numbered_steps py ls
            else numbered_steps py ls)
      else numbered_steps py ls)"

text \<open>\<^verbatim>\<open>str(n)\<close> for \<^verbatim>\<open>n = len(steps)\<close>.\<close>

fun str_nat :: "nat \<Rightarrow> pystr" where
  "str_nat n = (if n < 10 then [48 + n] else str_nat (n div 10) @ [48 + n mod 10])"

declare str_nat.simps [simp del]

definition default_steps :: "pystr \<Rightarrow> pystr list" where
  "default_steps t =
     [ustr ''Find recent articles about '' @ t,
      ustr ''Search for expert opinions on '' @ t,
      ustr ''Look for case studies related to '' @ t]"

definition fallback_plan :: "pystr \<Rightarrow> pystr list" where
  "fallback_plan t =
     [ustr ''Research overview of '' @ t,
      ustr ''Find key developments in '' @ t,
      ustr ''Explore challenges in '' @ t]"

text \<open>The steps parsed from the model output, before the default is substituted.\<close>

definition parse_steps :: "pylib \<Rightarrow> pystr \<Rightarrow> pystr list" where
  "parse_steps py output =
     (let steps = numbered_steps py (split_lines output);
          steps = (if steps = []
                   then [strip py s. s \<leftarrow> split_lines output, strip py s \<noteq> []]
                   else steps)
      in take 4 steps)"

text \<open>
  The body of the \<^verbatim>\<open>try\<close>. The only statement of it that can raise is the call of
  \<^verbatim>\<open>generate_text\<close>, before any field is written.
\<close>

definition planner_try :: "pylib \<Rightarrow> generation \<Rightarrow> research_state \<Rightarrow> error + research_state" where
  "planner_try py gen state =
     (case gen of
        Inl e \<Rightarrow> Inl e
      | Inr output \<Rightarrow>
          (let steps = parse_steps py output;
               steps = (if steps = [] then default_steps (topic state) else steps)
           in Inr (state\<lparr>plan := steps, current_step := 0,
                 status := Some (ustr ''Created plan with '' @ str_nat (length steps)
                                 @ ustr '' steps'')\<rparr>)))"

text \<open>The \<^verbatim>\<open>except Exception\<close> handler turns every exception into the fallback plan.\<close>

definition planner_agent :: "pylib \<Rightarrow> generation \<Rightarrow> research_state \<Rightarrow> error + research_state" where
  "planner_agent py gen state =
     (case planner_try py gen state of
        Inr state' \<Rightarrow> Inr state'
      | Inl e \<Rightarrow>
          Inr (state\<lparr>plan := fallback_plan (topic state), current_step := 0,
                status := Some (ustr ''Using fallback plan due to error'')\<rparr>))"

section \<open>The searcher (\<^verbatim>\<open>app/agents/searcher.py\<close>)\<close>

text \<open>One element of the \<^verbatim>\<open>results\<close> list of the search client, read with \<^verbatim>\<open>r.get\<close>.\<close>

record search_result =
  result_url :: "pystr option"
  result_content :: "pystr option"

text \<open>\<^verbatim>\<open>xs[i]\<close> for a Python integer: a negative index counts from the end.\<close>

definition py_index :: "'a list \<Rightarrow> int \<Rightarrow> error + 'a" where
  "py_index xs i =
     (if 0 \<le> i \<and> i < int (length xs) then Inr (xs ! nat i)
      else if i < 0 \<and> - int (length xs) \<le> i then Inr (xs ! nat (int (length xs) + i))
      else Inl IndexError)"

text \<open>
  The loop over the results, with the local set \<^verbatim>\<open>seen\<close> and \<^verbatim>\<open>state.sources\<close> as
  accumulators. \<^verbatim>\<open>not url\<close> holds for a missing and for an empty url.
\<close>

fun add_results :: "search_result list \<Rightarrow> pystr option set \<Rightarrow> source list \<Rightarrow> source list" where
  "add_results [] seen srcs = srcs"
| "add_results (r # rs) seen srcs =
     (case result_url r of
        None \<Rightarrow> add_results rs seen srcs
      | Some u \<Rightarrow>
          if u = [] \<or> Some u \<in> seen then add_results rs seen srcs
          else add_results rs (insert (Some u) seen)
                 (srcs @ [\<lparr>url = Some u,
                           content = Some (take 4000
                              (case result_content r of None \<Rightarrow> [] | Some c \<Rightarrow> c)),
                           source_type = Some (ustr ''tavily''),
                           score = None, eval_error = None\<rparr>]))"

text \<open>
  \<open>api_key\<close> is \<^verbatim>\<open>os.getenv("TAVILY_API_KEY")\<close>; \<open>tavily query\<close> is what
  \<^verbatim>\<open>client.search\<close> does for the query: it raises, or it returns the list read from the
  response (empty when the response has no \<^verbatim>\<open>results\<close>).
\<close>

definition search_agent ::
  "pystr option \<Rightarrow> (pystr \<Rightarrow> error + search_result list) \<Rightarrow> research_state
     \<Rightarrow> error + research_state" where
  "search_agent api_key tavily state =
     (if int (length (plan state)) \<le> current_step state then Inr state
      else if api_key = None \<or> api_key = Some [] then
        Inl (EnvironmentError (ustr ''Missing TAVILY_API_KEY''))
      else
        (case py_index (plan state) (current_step state) of
           Inl e \<Rightarrow> Inl e
         | Inr query \<Rightarrow>
             (case tavily query of
                Inl e \<Rightarrow> Inl e
              | Inr results \<Rightarrow>
                  Inr (state\<lparr>sources := add_results results (set (map url (sources state)))
                                          (sources state),
                        current_step := current_step state + 1\<rparr>))))"

section \<open>The evaluator (\<^verbatim>\<open>app/agents/evaluator.py\<close>)\<close>

record score_item =
  item_id :: nat
  item_url :: pystr
  item_snippet :: pystr

text \<open>The first loop: \<^verbatim>\<open>kept\<close> and \<^verbatim>\<open>to_score\<close>.\<close>

definition already_scored :: "source list \<Rightarrow> source list" where
  "already_scored srcs = [src. (i, src) \<leftarrow> enumerate 0 srcs, score src \<noteq> None]"

definition to_score_items :: "source list \<Rightarrow> score_item list" where
  "to_score_items srcs =
     [\<lparr>item_id = i,
       item_url = (case url src of None \<Rightarrow> [] | Some u \<Rightarrow> u),
       item_snippet = take 600 (case content src of None \<Rightarrow> [] | Some c \<Rightarrow> c)\<rparr>.
      (i, src) \<leftarrow> enumerate 0 srcs, score src = None]"

text \<open>\<^verbatim>\<open>obj[key]\<close> on a parsed value: only a dict with the key has one.\<close>

fun subscript :: "json \<Rightarrow> pystr \<Rightarrow> json option" where
  "subscript (JObj items) k = map_of items k"
| "subscript _ k = None"

text \<open>
  \<^verbatim>\<open>float(v)\<close> and \<^verbatim>\<open>int(v)\<close>, \<open>None\<close> where Python raises. An integer that rounds
  beyond the largest float raises \<^verbatim>\<open>OverflowError\<close>; \<^verbatim>\<open>int\<close> truncates towards zero
  and raises on \<^verbatim>\<open>nan\<close> and on the infinities.
\<close>

fun py_float :: "pylib \<Rightarrow> json \<Rightarrow> pyfloat option" where
  "py_float py (JInt i) =
     (if \<bar>i\<bar> < 2 ^ 1024 - 2 ^ 970 then Some (Fin (of_int i)) else None)"
| "py_float py (JBool b) = Some (Fin (if b then 1 else 0))"
| "py_float py (JFloat f) = Some f"
| "py_float py (JStr s) = float_of_str py s"
| "py_float py JNull = None"
| "py_float py (JArr xs) = None"
| "py_float py (JObj items) = None"

fun py_int :: "pylib \<Rightarrow> json \<Rightarrow> int option" where
  "py_int py (JInt i) = Some i"
| "py_int py (JBool b) = Some (if b then 1 else 0)"
| "py_int py (JFloat (Fin r)) = Some (if 0 \<le> r then \<lfloor>r\<rfloor> else \<lceil>r\<rceil>)"
| "py_int py (JFloat PosInf) = None"
| "py_int py (JFloat NegInf) = None"
| "py_int py (JFloat NaN) = None"
| "py_int py (JStr s) = int_of_str py s"
| "py_int py JNull = None"
| "py_int py (JArr xs) = None"
| "py_int py (JObj items) = None"

text \<open>
  \<^verbatim>\<open>max(0.0, min(1.0, x))\<close>. Python's \<^verbatim>\<open>min(a, b)\<close> is \<^verbatim>\<open>b\<close> if \<^verbatim>\<open>b < a\<close> and
  \<^verbatim>\<open>a\<close> otherwise, \<^verbatim>\<open>max(a, b)\<close> is \<^verbatim>\<open>b\<close> if \<^verbatim>\<open>b > a\<close> and \<^verbatim>\<open>a\<close> otherwise, and
  every comparison with \<^verbatim>\<open>nan\<close> is false: \<^verbatim>\<open>min(1.0, nan)\<close> is \<^verbatim>\<open>1.0\<close>,
  \<^verbatim>\<open>min(1.0, inf)\<close> is \<^verbatim>\<open>1.0\<close>, \<^verbatim>\<open>min(1.0, -inf)\<close> is \<^verbatim>\<open>-inf\<close>.
\<close>

fun clamp :: "pyfloat \<Rightarrow> real" where
  "clamp (Fin x) = max 0 (min 1 x)"
| "clamp PosInf = 1"
| "clamp NegInf = 0"
| "clamp NaN = 1"

text \<open>
  One round of the loop that fills \<^verbatim>\<open>score_map\<close>: the key and the value stored, or
  \<open>None\<close> when the statement raises and the \<^verbatim>\<open>except\<close> clause continues.
\<close>

definition score_entry :: "pylib \<Rightarrow> json \<Rightarrow> (int \<times> real) option" where
  "score_entry py obj =
     (case subscript obj (ustr ''score'') of
        None \<Rightarrow> None
      | Some sv \<Rightarrow>
          (case py_float py sv of
             None \<Rightarrow> None
           | Some f \<Rightarrow>
               (case subscript obj (ustr ''id'') of
                  None \<Rightarrow> None
                | Some iv \<Rightarrow>
                    (case py_int py iv of
                       None \<Rightarrow> None
                     | Some k \<Rightarrow> Some (k, clamp f)))))"

fun build_score_map :: "pylib \<Rightarrow> json list \<Rightarrow> (int \<rightharpoonup> real) \<Rightarrow> (int \<rightharpoonup> real)" where
  "build_score_map py [] score_map = score_map"
| "build_score_map py (obj # objs) score_map =
     build_score_map py objs
       (case score_entry py obj of None \<Rightarrow> score_map | Some (k, v) \<Rightarrow> score_map(k \<mapsto> v))"

text \<open>\<^verbatim>\<open>scores if isinstance(scores, list) else []\<close>.\<close>

fun score_list :: "json \<Rightarrow> json list" where
  "score_list (JArr objs) = objs"
| "score_list _ = []"

text \<open>\<^verbatim>\<open>kept\<close> at the end of the \<^verbatim>\<open>except\<close> block, and after the scores are attached.\<close>

definition kept_on_failure :: "pystr \<Rightarrow> source list \<Rightarrow> source list" where
  "kept_on_failure msg srcs =
     already_scored srcs @
     map (\<lambda>item. (srcs ! item_id item)
            \<lparr>score := Some 0.3, eval_error := Some (ustr ''JSON parse failed: '' @ msg)\<rparr>)
         (to_score_items srcs)"

definition kept_on_success :: "(int \<rightharpoonup> real) \<Rightarrow> source list \<Rightarrow> source list" where
  "kept_on_success score_map srcs =
     already_scored srcs @
     map (\<lambda>item. (srcs ! item_id item)
            \<lparr>score := Some (case score_map (int (item_id item)) of
                              None \<Rightarrow> 0.3 | Some v \<Rightarrow> v)\<rparr>)
         (to_score_items srcs)"

text \<open>\<^verbatim>\<open>s.get("score", 0)\<close>.\<close>

definition score_key :: "source \<Rightarrow> real" where
  "score_key src = (case score src of None \<Rightarrow> 0 | Some v \<Rightarrow> v)"

text \<open>
  \<^verbatim>\<open>sorted(xs, key=key, reverse=True)\<close>: Python's sort is stable, also when reversed,
  so this is the stable sort by the negated key.
\<close>

definition sorted_reverse :: "('a \<Rightarrow> real) \<Rightarrow> 'a list \<Rightarrow> 'a list" where
  "sorted_reverse key xs = sort_key (\<lambda>x. - key x) xs"

definition filter_or_top3 :: "source list \<Rightarrow> source list" where
  "filter_or_top3 kept =
     (let filtered = filter (\<lambda>s. 0.6 \<le> score_key s) kept
      in if filtered \<noteq> [] then filtered else take 3 (sorted_reverse score_key kept))"

definition evaluator_agent :: "pylib \<Rightarrow> generation \<Rightarrow> research_state \<Rightarrow> error + research_state" where
  "evaluator_agent py gen state =
     (if sources state = [] then Inr state
      else if to_score_items (sources state) = [] then
        Inr (state\<lparr>sources := already_scored (sources state)\<rparr>)
      else
        (case gen of
           Inl e \<Rightarrow> Inl e
         | Inr raw \<Rightarrow>
             (case parse_json py raw of
                Inl msg \<Rightarrow> Inr (state\<lparr>sources := kept_on_failure msg (sources state)\<rparr>)
              | Inr scores \<Rightarrow>
                  Inr (state\<lparr>sources :=
                         filter_or_top3
                           (kept_on_success (build_score_map py (score_list scores) Map.empty)
                              (sources state))\<rparr>))))"

section \<open>The synthesizer (\<^verbatim>\<open>app/agents/synthesizer.py\<close>)\<close>

text \<open>
  The graph is built over \<^verbatim>\<open>ResearchState\<close>, so the node receives an object and the
  branches for an object apply. What a call did: the state returned or the exception raised,
  and the number of \<^verbatim>\<open>generate_text\<close> calls made.
\<close>

record synth_run =
  result :: "error + research_state"
  generation_calls :: nat

definition no_sources_message :: pystr where
  "no_sources_message =
     ustr ''No sources were retrieved. Check Tavily key/config or try a different query.''"

text \<open>\<^verbatim>\<open>if existing_report:\<close> on an optional string.\<close>

definition truthy :: "pystr option \<Rightarrow> bool" where
  "truthy r = (case r of None \<Rightarrow> False | Some t \<Rightarrow> t \<noteq> [])"

definition synthesizer_agent :: "generation \<Rightarrow> research_state \<Rightarrow> synth_run" where
  "synthesizer_agent gen state =
     (if truthy (report state) then \<lparr>result = Inr state, generation_calls = 0\<rparr>
      else if sources state = [] then
        \<lparr>result = Inr (state\<lparr>report := Some no_sources_message\<rparr>), generation_calls = 0\<rparr>
      else
        (case gen of
           Inl e \<Rightarrow> \<lparr>result = Inl e, generation_calls = 1\<rparr>
         | Inr report_text \<Rightarrow>
             \<lparr>result = Inr (state\<lparr>report := Some report_text\<rparr>), generation_calls = 1\<rparr>))"

section \<open>The graph (\<^verbatim>\<open>app/graph.py\<close>)\<close>

datatype route = Search | Synthesize

definition should_continue :: "research_state \<Rightarrow> route" where
  "should_continue state =
     (if current_step state < int (length (plan state)) then Search else Synthesize)"

text \<open>
  The cycle \<^verbatim>\<open>search \<rightarrow> evaluate \<rightarrow> should_continue\<close>, entered at \<^verbatim>\<open>search\<close>. The
  \<open>k\<close>-th round uses the search client \<open>tavily k\<close> and the generation result \<open>gen k\<close>.
  The loop ends with the exception of a node, or with the state handed to
  \<^verbatim>\<open>synthesize\<close> and the number of \<^verbatim>\<open>search_agent\<close> calls made so far.
\<close>

function search_evaluate_loop ::
  "pylib \<Rightarrow> pystr option \<Rightarrow> (nat \<Rightarrow> pystr \<Rightarrow> error + search_result list) \<Rightarrow> (nat \<Rightarrow> generation)
     \<Rightarrow> nat \<Rightarrow> research_state \<Rightarrow> error + (research_state \<times> nat)" where
  "search_evaluate_loop py api_key tavily gen k state =
     (case search_agent api_key (tavily k) state of
        Inl e \<Rightarrow> Inl e
      | Inr searched \<Rightarrow>
          (case evaluator_agent py (gen k) searched of
             Inl e \<Rightarrow> Inl e
           | Inr evaluated \<Rightarrow>
               (case should_continue evaluated of
                  Search \<Rightarrow> search_evaluate_loop py api_key tavily gen (k + 1) evaluated
                | Synthesize \<Rightarrow> Inr (evaluated, k + 1))))"
  by pat_completeness auto
termination
proof (relation "measure (\<lambda>(py, api_key, tavily, gen, k, state).
                   nat (int (length (plan state)) - current_step state))")
  show "wf (measure (\<lambda>(py, api_key, tavily, gen, k, state).
              nat (int (length (plan state)) - current_step state)))"
    by simp
next
  fix py :: pylib and api_key :: "pystr option"
    and tavily :: "nat \<Rightarrow> pystr \<Rightarrow> error + search_result list"
    and gen :: "nat \<Rightarrow> generation" and k :: nat
    and state searched evaluated :: research_state
  assume s: "search_agent api_key (tavily k) state = Inr searched"
    and e: "evaluator_agent py (gen k) searched = Inr evaluated"
    and c: "should_continue evaluated = Search"
  from e have same: "plan evaluated = plan searched \<and> current_step evaluated = current_step searched"
    by (auto simp: evaluator_agent_def split: if_splits sum.splits)
  from c have "current_step evaluated < int (length (plan evaluated))"
    by (simp add: should_continue_def split: if_splits)
  with same have lt: "current_step searched < int (length (plan searched))" by simp
  from s lt have "plan searched = plan state \<and> current_step searched = current_step state + 1"
    by (auto simp: search_agent_def split: if_splits sum.splits)
  with lt show "((py, api_key, tavily, gen, k + 1, evaluated), (py, api_key, tavily, gen, k, state))
        \<in> measure (\<lambda>(py, api_key, tavily, gen, k, state).
              nat (int (length (plan state)) - current_step state))"
    using same by simp
qed

declare search_evaluate_loop.simps [simp del]

section \<open>Concrete inputs\<close>

text \<open>The inputs at which the theorems below are applied.\<close>

definition always_429 :: "nat \<Rightarrow> api_reply" where
  "always_429 i = RaisesClientError (ustr ''429 RESOURCE_EXHAUSTED'')"

definition quota_then_bad_request :: "nat \<Rightarrow> api_reply" where
  "quota_then_bad_request i =
     (if i = 0 then RaisesClientError (ustr ''Quota exceeded'')
      else RaisesClientError (ustr ''400 INVALID_ARGUMENT''))"

definition example_source :: source where
  "example_source = \<lparr>url = Some (ustr ''https://a.example/1''), content = Some (ustr ''alpha''),
     source_type = Some (ustr ''tavily''), score = None, eval_error = None\<rparr>"

definition example_state :: research_state where
  "example_state = \<lparr>topic = ustr ''Quantum computing'', plan = [], current_step = 0,
     sources = [], report = None, status = None, progress = Some 0\<rparr>"

definition blank_output :: pystr where
  "blank_output = ustr ''  '' @ [10] @ [9] @ [10]"

definition numbered_output :: pystr where
  "numbered_output = ustr ''1. alpha'' @ [10] @ ustr ''  - beta'' @ [10] @ [10] @ ustr ''note''
      @ [10] @ [bullet] @ ustr '' gamma''"

definition source_a :: source where
  "source_a = \<lparr>url = Some (ustr ''https://a.example''), content = Some (ustr ''A''),
     source_type = Some (ustr ''tavily''), score = None, eval_error = None\<rparr>"

definition source_b :: source where
  "source_b = \<lparr>url = Some (ustr ''https://b.example''), content = Some (ustr ''B''),
     source_type = Some (ustr ''tavily''), score = None, eval_error = None\<rparr>"

definition overlapping_results :: "search_result list" where
  "overlapping_results =
     [\<lparr>result_url = Some (ustr ''https://a.example''), result_content = Some (ustr ''A again'')\<rparr>,
      \<lparr>result_url = Some (ustr ''https://b.example''), result_content = Some (ustr ''B'')\<rparr>,
      \<lparr>result_url = Some [], result_content = Some (ustr ''no url'')\<rparr>,
      \<lparr>result_url = None, result_content = None\<rparr>,
      \<lparr>result_url = Some (ustr ''https://b.example''), result_content = Some (ustr ''B again'')\<rparr>]"

definition two_step_state :: research_state where
  "two_step_state = \<lparr>topic = ustr ''Quantum computing'',
     plan = [ustr ''quantum error correction'', ustr ''quantum hardware''],
     current_step = 0, sources = [source_a], report = None, status = None, progress = Some 0\<rparr>"

definition one_step_state :: research_state where
  "one_step_state = \<lparr>topic = ustr ''Quantum computing'', plan = [ustr ''quantum error correction''],
     current_step = 0, sources = [], report = None, status = None, progress = Some 0\<rparr>"

definition no_results :: "pystr \<Rightarrow> error + search_result list" where
  "no_results query = Inr []"

definition source_c :: source where
  "source_c = \<lparr>url = Some (ustr ''https://c.example''), content = Some (ustr ''C''),
     source_type = Some (ustr ''tavily''), score = None, eval_error = None\<rparr>"

definition source_d :: source where
  "source_d = \<lparr>url = Some (ustr ''https://d.example''), content = Some (ustr ''D''),
     source_type = Some (ustr ''tavily''), score = None, eval_error = None\<rparr>"

definition json_lib :: "json \<Rightarrow> pylib" where
  "json_lib scores = ascii_lib\<lparr>parse_json := (\<lambda>raw. Inr scores)\<rparr>"

definition score_object :: "json \<Rightarrow> json \<Rightarrow> json" where
  "score_object i s = JObj [(ustr ''id'', i), (ustr ''score'', s)]"

definition low_scores :: json where
  "low_scores = JArr
     [score_object (JInt 0) (JFloat (Fin 0.3)), score_object (JInt 1) (JFloat (Fin 0.5)),
      score_object (JInt 2) (JFloat (Fin 0.2)), score_object (JInt 3) (JFloat (Fin 0.5))]"

definition mixed_entries :: "json list" where
  "mixed_entries =
     [score_object (JInt 0) (JFloat (Fin 1.7)), score_object (JStr (ustr ''one'')) (JFloat (Fin 0.9)),
      score_object (JInt 2) (JStr (ustr ''high'')), score_object (JInt 3) (JInt (- 2)),
      JStr (ustr ''n/a'')]"

definition four_sources_state :: research_state where
  "four_sources_state = \<lparr>topic = ustr ''Quantum computing'',
     plan = [ustr ''quantum error correction'', ustr ''quantum hardware''],
     current_step = 1, sources = [source_a, source_b, source_c, source_d],
     report = None, status = None, progress = Some 0\<rparr>"

definition rescored_state :: research_state where
  "rescored_state = \<lparr>topic = ustr ''Quantum computing'',
     plan = [ustr ''quantum error correction'', ustr ''quantum hardware''],
     current_step = 2, sources = [source_a\<lparr>score := Some 0.9\<rparr>, source_b],
     report = None, status = None, progress = Some 0\<rparr>"

section \<open>The retry contract of the generation client\<close>

lemma delays_from_backoff: "delays_from (backoff a) m = map backoff [a..<a + m]"
proof (induction m arbitrary: a)
  case 0 show ?case by simp
next
  case (Suc m)
  have step: "min (backoff a * 2) 30 = backoff (Suc a)"
    by (simp add: backoff_def min_def)
  have "[a..<a + Suc m] = a # [Suc a..<Suc a + m]"
    by (simp add: upt_rec)
  with Suc[of "Suc a"] step show ?case by simp
qed

lemma retry_loop_first_other:
  "attempt \<le> k \<Longrightarrow> k < n \<Longrightarrow> (\<forall>i. attempt \<le> i \<and> i < k \<longrightarrow> rate_limited py (api i))
   \<Longrightarrow> \<not> rate_limited py (api k)
   \<Longrightarrow> retry_loop py api n attempt d sl =
       \<lparr>outcome = final_outcome (api k), attempts = k + 1,
        backoff_sleeps = sl @ delays_from d (k - attempt)\<rparr>"
proof (induction "k - attempt" arbitrary: attempt d sl)
  case 0
  then have "attempt = k" by simp
  with 0 show ?case
    by (cases "api k") (simp_all add: retry_loop.simps [of py api n k d sl])
next
  case (Suc m)
  then have lt: "attempt < k" and rl: "rate_limited py (api attempt)" by auto
  from rl obtain e where e: "api attempt = RaisesClientError e" "is_rate_limit py e"
    by (cases "api attempt") auto
  have IH: "retry_loop py api n (attempt + 1) (min (d * 2) 30) (sl @ [d]) =
       \<lparr>outcome = final_outcome (api k), attempts = k + 1,
        backoff_sleeps = (sl @ [d]) @ delays_from (min (d * 2) 30) (k - (attempt + 1))\<rparr>"
    using Suc by (intro Suc.hyps(1)) auto
  have "k - attempt = Suc (k - (attempt + 1))" using lt by simp
  then have "delays_from d (k - attempt) = d # delays_from (min (d * 2) 30) (k - (attempt + 1))"
    by simp
  with IH e lt Suc.prems show ?case
    by (simp add: retry_loop.simps [of py api n attempt d sl])
qed

lemma retry_loop_all_limited:
  "attempt < n \<Longrightarrow> (\<forall>i. attempt \<le> i \<and> i < n \<longrightarrow> rate_limited py (api i))
   \<Longrightarrow> retry_loop py api n attempt d sl =
       \<lparr>outcome = Inl rate_limit_exceeded, attempts = n,
        backoff_sleeps = sl @ delays_from d (n - 1 - attempt)\<rparr>"
proof (induction "n - 1 - attempt" arbitrary: attempt d sl)
  case 0
  then have last: "\<not> attempt < n - 1" "attempt + 1 = n" "n - 1 - attempt = 0" by simp_all
  from 0 have "rate_limited py (api attempt)" by simp
  then obtain e where e: "api attempt = RaisesClientError e" "is_rate_limit py e"
    by (cases "api attempt") auto
  from 0 have "\<not> n \<le> attempt" by simp
  with e last show ?case
    by (simp add: retry_loop.simps [of py api n attempt d sl])
next
  case (Suc m)
  then have lt: "attempt < n - 1" by simp
  from Suc have "rate_limited py (api attempt)" by simp
  then obtain e where e: "api attempt = RaisesClientError e" "is_rate_limit py e"
    by (cases "api attempt") auto
  have IH: "retry_loop py api n (attempt + 1) (min (d * 2) 30) (sl @ [d]) =
       \<lparr>outcome = Inl rate_limit_exceeded, attempts = n,
        backoff_sleeps = (sl @ [d]) @ delays_from (min (d * 2) 30) (n - 1 - (attempt + 1))\<rparr>"
    using Suc by (intro Suc.hyps(1)) auto
  have "n - 1 - attempt = Suc (n - 1 - (attempt + 1))" using lt by simp
  then have "delays_from d (n - 1 - attempt) = d # delays_from (min (d * 2) 30) (n - 1 - (attempt + 1))"
    by simp
  with IH e lt Suc.prems show ?case
    by (simp add: retry_loop.simps [of py api n attempt d sl])
qed

lemma backoff_0: "backoff 0 = 3" by (simp add: backoff_def)

lemma attempts_le: "attempts (retry_loop py api n attempt d sl) \<le> max n attempt"
proof (induction py api n attempt d sl rule: retry_loop.induct)
  case (1 py api n attempt d sl)
  show ?case
  proof (cases "n \<le> attempt")
    case True then show ?thesis by (simp add: retry_loop.simps [of py api n attempt d sl])
  next
    case False
    show ?thesis
    proof (cases "api attempt")
      case (Text t) with False show ?thesis by (simp add: retry_loop.simps [of py api n attempt d sl])
    next
      case (RaisesOther m) with False show ?thesis by (simp add: retry_loop.simps [of py api n attempt d sl])
    next
      case (RaisesClientError e)
      show ?thesis
      proof (cases "is_rate_limit py e \<and> attempt < n - 1")
        case True
        with 1 [OF False RaisesClientError] False have "attempts (retry_loop py api n (attempt + 1) (min (d * 2) 30) (sl @ [d])) \<le> max n (attempt + 1)" by simp
        with True False RaisesClientError show ?thesis by (simp add: retry_loop.simps [of py api n attempt d sl])
      next
        case F2: False
        with False RaisesClientError show ?thesis by (auto simp add: retry_loop.simps [of py api n attempt d sl])
      qed
    qed
  qed
qed


lemma delays_from_3: "delays_from 3 m = map backoff [0..<m]"
  using delays_from_backoff [of 0 m] by (simp add: backoff_0)

lemma generate_text_first_other:
  assumes "k < n" and "\<forall>i<k. rate_limited py (api i)" and "\<not> rate_limited py (api k)"
  shows "generate_text py api n =
           \<lparr>outcome = final_outcome (api k), attempts = k + 1,
            backoff_sleeps = map backoff [0..<k]\<rparr>"
proof -
  have "retry_loop py api n 0 (backoff 0) [] =
          \<lparr>outcome = final_outcome (api k), attempts = k + 1,
           backoff_sleeps = [] @ delays_from (backoff 0) (k - 0)\<rparr>"
    using assms by (intro retry_loop_first_other) auto
  then show ?thesis
    by (simp add: generate_text_def backoff_0 delays_from_3)
qed

lemma generate_text_all_limited:
  assumes "0 < n" and "\<forall>i<n. rate_limited py (api i)"
  shows "generate_text py api n =
           \<lparr>outcome = Inl rate_limit_exceeded, attempts = n,
            backoff_sleeps = map backoff [0..<n - 1]\<rparr>"
proof -
  have "retry_loop py api n 0 (backoff 0) [] =
          \<lparr>outcome = Inl rate_limit_exceeded, attempts = n,
           backoff_sleeps = [] @ delays_from (backoff 0) (n - 1 - 0)\<rparr>"
    using assms by (intro retry_loop_all_limited) auto
  then show ?thesis
    by (simp add: generate_text_def backoff_0 delays_from_3)
qed

lemma generate_text_attempts_pos: "0 < n \<Longrightarrow> 1 \<le> attempts (generate_text py api n)"
proof (cases "\<forall>i<n. rate_limited py (api i)")
  case True
  assume "0 < n"
  with True show ?thesis by (simp add: generate_text_all_limited)
next
  case False
  define k where "k = (LEAST i. i < n \<and> \<not> rate_limited py (api i))"
  from False have ex: "\<exists>i. i < n \<and> \<not> rate_limited py (api i)" by auto
  then have k: "k < n \<and> \<not> rate_limited py (api k)"
    unfolding k_def by (rule LeastI_ex)
  have "\<forall>i<k. rate_limited py (api i)"
  proof (intro allI impI)
    fix i assume "i < k"
    then have "\<not> (i < n \<and> \<not> rate_limited py (api i))"
      unfolding k_def by (rule not_less_Least)
    with \<open>i < k\<close> k show "rate_limited py (api i)" by simp
  qed
  with k show ?thesis by (simp add: generate_text_first_other [of k n py api])
qed

lemma first_not_limited:
  fixes n :: nat
  assumes "\<not> (\<forall>i<n. rate_limited py (api i))"
  shows "\<exists>k<n. (\<forall>i<k. rate_limited py (api i)) \<and> \<not> rate_limited py (api k)"
proof -
  define k where "k = (LEAST i. i < n \<and> \<not> rate_limited py (api i))"
  from assms have "\<exists>i. i < n \<and> \<not> rate_limited py (api i)" by auto
  then have k: "k < n \<and> \<not> rate_limited py (api k)"
    unfolding k_def by (rule LeastI_ex)
  have "rate_limited py (api i)" if "i < k" for i
  proof -
    from that have "\<not> (i < n \<and> \<not> rate_limited py (api i))"
      unfolding k_def by (rule not_less_Least)
    with that k show ?thesis by simp
  qed
  with k show ?thesis by blast
qed

lemma final_outcome_not_rate_limit: "final_outcome r \<noteq> Inl rate_limit_exceeded"
  by (cases r) (simp_all add: rate_limit_exceeded_def)

lemma generate_text_rate_limit_iff:
  assumes "0 < n"
  shows "outcome (generate_text py api n) = Inl rate_limit_exceeded
           \<longleftrightarrow> (\<forall>i<n. rate_limited py (api i))"
proof
  assume "\<forall>i<n. rate_limited py (api i)"
  with assms show "outcome (generate_text py api n) = Inl rate_limit_exceeded"
    by (simp add: generate_text_all_limited)
next
  assume o: "outcome (generate_text py api n) = Inl rate_limit_exceeded"
  show "\<forall>i<n. rate_limited py (api i)"
  proof (rule ccontr)
    assume "\<not> (\<forall>i<n. rate_limited py (api i))"
    from first_not_limited [OF this] obtain k where
      k: "k < n" "\<forall>i<k. rate_limited py (api i)" "\<not> rate_limited py (api k)"
      by blast
    from generate_text_first_other [OF k]
    have "outcome (generate_text py api n) = final_outcome (api k)" by simp
    with o final_outcome_not_rate_limit [of "api k"] show False by simp
  qed
qed

lemma rate_limit_message_marked:
  "contains (ustr ''rate limit'') (lower ascii_lib (ustr
     (''Gemini API rate limit exceeded. Please wait a few minutes and try again. '' @
      ''Consider upgrading your API key or reducing request frequency.'')))"
  by (simp add: ascii_lib_def ustr_def)

lemma fall_through_message_unmarked:
  "\<not> contains (ustr ''rate limit'')
       (lower ascii_lib (ustr ''Failed to generate text after retries''))"
  by (simp add: ascii_lib_def ustr_def)

text \<open>
  Claim C7. With the default \<^verbatim>\<open>max_retries = 3\<close>, \<^verbatim>\<open>generate_text\<close> calls the provider
  at least once and at most three times. If all three attempts end in a rate-limit-class
  client error, it sleeps 3 and then 6 between them and raises the rate-limit-exceeded
  \<^verbatim>\<open>RuntimeError\<close>. The first attempt that is not rate-limited ends the run at once: its
  text is returned or its exception is raised as it is, with no sleep and no attempt after
  it; a client error that is not rate-limited on the first attempt gives exactly one attempt.
  For any positive \<^verbatim>\<open>max_retries\<close> the sleeps of an exhausted run are \<open>backoff 0\<close>,
  \<open>backoff 1\<close>, ..., where \<open>backoff i = min (3 * 2 ^ i) 30\<close>: start 3, doubling, cap 30.

  The rate-limit-exceeded error is distinguished: it is the \<^verbatim>\<open>RuntimeError\<close> with the
  message written out below; a run ends with it exactly when every attempt was
  rate-limited; it is none of the results that a single attempt can hand through (a text,
  the provider's \<^verbatim>\<open>ClientError\<close>, another exception of the provider); and it is not the
  \<^verbatim>\<open>RuntimeError\<close> raised after the loop. The callers recognise it by the test
  \<^verbatim>\<open>"rate limit" in str(e).lower()\<close> (\<^verbatim>\<open>generate_text_with_fallback\<close>, \<^verbatim>\<open>main.py\<close>): the
  message, which is ASCII, passes that test and the message of the error after the loop
  does not.
\<close>

theorem generate_text_retry_contract:
  "(let run = generate_text py api default_max_retries in
      1 \<le> attempts run \<and> attempts run \<le> 3
      \<and> ((\<forall>i<3. rate_limited py (api i)) \<longrightarrow>
            outcome run = Inl rate_limit_exceeded \<and> attempts run = 3
            \<and> backoff_sleeps run = [3, 6])
      \<and> (\<forall>k<3. (\<forall>i<k. rate_limited py (api i)) \<and> \<not> rate_limited py (api k) \<longrightarrow>
            outcome run = final_outcome (api k) \<and> attempts run = k + 1
            \<and> backoff_sleeps run = take k [3, 6])
      \<and> (\<forall>e. api 0 = RaisesClientError e \<and> \<not> is_rate_limit py e \<longrightarrow>
            outcome run = Inl (ClientError e) \<and> attempts run = 1 \<and> backoff_sleeps run = [])
      \<and> (outcome run = Inl rate_limit_exceeded \<longleftrightarrow> (\<forall>i<3. rate_limited py (api i))))
   \<and> (\<forall>n>0. (\<forall>i<n. rate_limited py (api i)) \<longrightarrow>
         outcome (generate_text py api n) = Inl rate_limit_exceeded
         \<and> attempts (generate_text py api n) = n
         \<and> backoff_sleeps (generate_text py api n) = map backoff [0..<n - 1]
         \<and> (\<forall>i. backoff i = min (3 * 2 ^ i) 30))
   \<and> (\<forall>n>0. outcome (generate_text py api n) = Inl rate_limit_exceeded
           \<longleftrightarrow> (\<forall>i<n. rate_limited py (api i)))
   \<and> (\<exists>msg. rate_limit_exceeded = RuntimeError msg
         \<and> msg = ustr
             (''Gemini API rate limit exceeded. Please wait a few minutes and try again. '' @
              ''Consider upgrading your API key or reducing request frequency.'')
         \<and> contains (ustr ''rate limit'') (lower ascii_lib msg))
   \<and> (\<forall>reply. final_outcome reply \<noteq> Inl rate_limit_exceeded)
   \<and> (\<forall>t. Inl rate_limit_exceeded \<noteq> (Inr t :: error + pystr))
   \<and> (\<forall>e. rate_limit_exceeded \<noteq> ClientError e \<and> rate_limit_exceeded \<noteq> OtherException e)
   \<and> rate_limit_exceeded \<noteq> RuntimeError (ustr ''Failed to generate text after retries'')
   \<and> \<not> contains (ustr ''rate limit'')
         (lower ascii_lib (ustr ''Failed to generate text after retries''))"
proof -
  let ?run = "generate_text py api 3"
  have a1: "1 \<le> attempts ?run" by (rule generate_text_attempts_pos) simp
  have a2: "attempts ?run \<le> 3"
    using attempts_le [of py api 3 0 3 "[]"] by (simp add: generate_text_def)
  have a3: "outcome ?run = Inl rate_limit_exceeded \<and> attempts ?run = 3
            \<and> backoff_sleeps ?run = [3, 6]" if "\<forall>i<3. rate_limited py (api i)"
    using generate_text_all_limited [of 3 py api] that
    by (simp add: upt_rec backoff_def)
  have a4: "outcome ?run = final_outcome (api k) \<and> attempts ?run = k + 1
            \<and> backoff_sleeps ?run = take k [3, 6]"
    if "k < 3" "\<forall>i<k. rate_limited py (api i)" "\<not> rate_limited py (api k)" for k
  proof -
    from that(1) have "k = 0 \<or> k = 1 \<or> k = 2" by auto
    then have "map backoff [0..<k] = take k [3, 6]"
      by (auto simp: upt_rec backoff_def)
    with generate_text_first_other [OF that] show ?thesis by simp
  qed
  have a5: "outcome ?run = Inl (ClientError e) \<and> attempts ?run = 1 \<and> backoff_sleeps ?run = []"
    if "api 0 = RaisesClientError e" "\<not> is_rate_limit py e" for e
    using a4 [of 0] that by simp
  have a6: "outcome (generate_text py api n) = Inl rate_limit_exceeded
         \<and> attempts (generate_text py api n) = n
         \<and> backoff_sleeps (generate_text py api n) = map backoff [0..<n - 1]"
    if "0 < n" "\<forall>i<n. rate_limited py (api i)" for n
    using generate_text_all_limited [OF that] by simp
  have a7: "outcome (generate_text py api n) = Inl rate_limit_exceeded
           \<longleftrightarrow> (\<forall>i<n. rate_limited py (api i))" if "0 < n" for n
    using that by (rule generate_text_rate_limit_iff)
  have first: "1 \<le> attempts ?run \<and> attempts ?run \<le> 3
      \<and> ((\<forall>i<3. rate_limited py (api i)) \<longrightarrow>
            outcome ?run = Inl rate_limit_exceeded \<and> attempts ?run = 3
            \<and> backoff_sleeps ?run = [3, 6])
      \<and> (\<forall>k<3. (\<forall>i<k. rate_limited py (api i)) \<and> \<not> rate_limited py (api k) \<longrightarrow>
            outcome ?run = final_outcome (api k) \<and> attempts ?run = k + 1
            \<and> backoff_sleeps ?run = take k [3, 6])
      \<and> (\<forall>e. api 0 = RaisesClientError e \<and> \<not> is_rate_limit py e \<longrightarrow>
            outcome ?run = Inl (ClientError e) \<and> attempts ?run = 1 \<and> backoff_sleeps ?run = [])
      \<and> (outcome ?run = Inl rate_limit_exceeded \<longleftrightarrow> (\<forall>i<3. rate_limited py (api i)))"
    using a1 a2 a3 a4 a5 a7 [of 3] by auto
  have second: "\<forall>n>0. (\<forall>i<n. rate_limited py (api i)) \<longrightarrow>
         outcome (generate_text py api n) = Inl rate_limit_exceeded
         \<and> attempts (generate_text py api n) = n
         \<and> backoff_sleeps (generate_text py api n) = map backoff [0..<n - 1]
         \<and> (\<forall>i. backoff i = min (3 * 2 ^ i) 30)"
    using a6 by (auto simp: backoff_def)
  have third: "\<forall>n>0. outcome (generate_text py api n) = Inl rate_limit_exceeded
           \<longleftrightarrow> (\<forall>i<n. rate_limited py (api i))"
    using a7 by blast
  have pinned: "\<exists>msg. rate_limit_exceeded = RuntimeError msg
         \<and> msg = ustr
             (''Gemini API rate limit exceeded. Please wait a few minutes and try again. '' @
              ''Consider upgrading your API key or reducing request frequency.'')
         \<and> contains (ustr ''rate limit'') (lower ascii_lib msg)"
    using rate_limit_message_marked by (simp add: rate_limit_exceeded_def)
  have apart: "\<forall>reply. final_outcome reply \<noteq> Inl rate_limit_exceeded"
    using final_outcome_not_rate_limit by blast
  have no_text: "\<forall>t. Inl rate_limit_exceeded \<noteq> (Inr t :: error + pystr)" by simp
  have classes: "\<forall>e. rate_limit_exceeded \<noteq> ClientError e
      \<and> rate_limit_exceeded \<noteq> OtherException e"
    by (simp add: rate_limit_exceeded_def)
  have after_loop: "rate_limit_exceeded \<noteq> RuntimeError (ustr ''Failed to generate text after retries'')"
    by (simp add: rate_limit_exceeded_def ustr_def)
  show ?thesis
    unfolding Let_def default_max_retries_def
    by (intro conjI) (use first second third pinned apart no_text classes after_loop
        fall_through_message_unmarked in \<open>blast+\<close>)
qed

lemma contains_ex1: "is_rate_limit ascii_lib (ustr ''429 RESOURCE_EXHAUSTED'')"
  by (simp add: is_rate_limit_def ustr_def)
lemma contains_ex2: "is_rate_limit ascii_lib (ustr ''Quota exceeded'')"
  by (simp add: is_rate_limit_def ustr_def ascii_lib_def)
lemma contains_ex3: "\<not> is_rate_limit ascii_lib (ustr ''400 INVALID_ARGUMENT'')"
  by (simp add: is_rate_limit_def ustr_def ascii_lib_def)

text \<open>
  Two runs: three answers "429 RESOURCE_EXHAUSTED", which end in the rate-limit error with
  its message, and a "Quota exceeded" answer followed by "400 INVALID_ARGUMENT", which ends
  in that client error and not in the rate-limit error.
\<close>

theorem generate_text_retry_contract_witness:
  "rate_limited ascii_lib (always_429 0) \<and> rate_limited ascii_lib (always_429 1)
   \<and> rate_limited ascii_lib (always_429 2)
   \<and> generate_text ascii_lib always_429 default_max_retries =
       \<lparr>outcome = Inl rate_limit_exceeded, attempts = 3, backoff_sleeps = [3, 6]\<rparr>
   \<and> rate_limited ascii_lib (quota_then_bad_request 0)
   \<and> \<not> rate_limited ascii_lib (quota_then_bad_request 1)
   \<and> generate_text ascii_lib quota_then_bad_request default_max_retries =
       \<lparr>outcome = Inl (ClientError (ustr ''400 INVALID_ARGUMENT'')), attempts = 2,
        backoff_sleeps = [3]\<rparr>
   \<and> outcome (generate_text ascii_lib always_429 default_max_retries) =
       Inl (RuntimeError (ustr
         (''Gemini API rate limit exceeded. Please wait a few minutes and try again. '' @
          ''Consider upgrading your API key or reducing request frequency.'')))
   \<and> outcome (generate_text ascii_lib quota_then_bad_request default_max_retries)
       \<noteq> Inl rate_limit_exceeded
   \<and> outcome (generate_text ascii_lib always_429 default_max_retries)
       \<noteq> outcome (generate_text ascii_lib quota_then_bad_request default_max_retries)"
proof -
  have h1: "\<forall>i<3. rate_limited ascii_lib (always_429 i)"
    by (simp add: always_429_def contains_ex1)
  have h2: "rate_limited ascii_lib (quota_then_bad_request 0)"
    "\<not> rate_limited ascii_lib (quota_then_bad_request 1)"
    by (simp_all add: quota_then_bad_request_def contains_ex2 contains_ex3)
  from h2 have h3: "\<forall>i<1. rate_limited ascii_lib (quota_then_bad_request i)" by simp
  note c1 = generate_text_retry_contract [of ascii_lib always_429, unfolded Let_def]
  note c2 = generate_text_retry_contract [of ascii_lib quota_then_bad_request, unfolded Let_def]
  from c1 h1 have r1: "generate_text ascii_lib always_429 default_max_retries =
       \<lparr>outcome = Inl rate_limit_exceeded, attempts = 3, backoff_sleeps = [3, 6]\<rparr>"
    by (intro gen_run.equality) simp_all
  from c2 h2 h3 have "outcome (generate_text ascii_lib quota_then_bad_request default_max_retries)
         = final_outcome (quota_then_bad_request 1)
      \<and> attempts (generate_text ascii_lib quota_then_bad_request default_max_retries) = 1 + 1
      \<and> backoff_sleeps (generate_text ascii_lib quota_then_bad_request default_max_retries)
         = take 1 [3, 6]"
    by (metis One_nat_def one_less_numeral_iff semiring_norm(77))
  then have r2: "generate_text ascii_lib quota_then_bad_request default_max_retries =
       \<lparr>outcome = Inl (ClientError (ustr ''400 INVALID_ARGUMENT'')), attempts = 2,
        backoff_sleeps = [3]\<rparr>"
    by (intro gen_run.equality) (simp_all add: quota_then_bad_request_def)
  from c1 have pinned: "rate_limit_exceeded = RuntimeError (ustr
         (''Gemini API rate limit exceeded. Please wait a few minutes and try again. '' @
          ''Consider upgrading your API key or reducing request frequency.''))"
    by blast
  from c2 have "outcome (generate_text ascii_lib quota_then_bad_request default_max_retries)
        = Inl rate_limit_exceeded
      \<longleftrightarrow> (\<forall>i<3. rate_limited ascii_lib (quota_then_bad_request i))"
    by blast
  with h2(2) have r3: "outcome (generate_text ascii_lib quota_then_bad_request default_max_retries)
       \<noteq> Inl rate_limit_exceeded"
    by (metis One_nat_def one_less_numeral_iff semiring_norm(77))
  from r1 have o1: "outcome (generate_text ascii_lib always_429 default_max_retries)
       = Inl rate_limit_exceeded"
    by simp
  with pinned have r4: "outcome (generate_text ascii_lib always_429 default_max_retries) =
       Inl (RuntimeError (ustr
         (''Gemini API rate limit exceeded. Please wait a few minutes and try again. '' @
          ''Consider upgrading your API key or reducing request frequency.'')))"
    by simp
  from o1 r3 have r5: "outcome (generate_text ascii_lib always_429 default_max_retries)
       \<noteq> outcome (generate_text ascii_lib quota_then_bad_request default_max_retries)"
    by simp
  from h1 have h1': "rate_limited ascii_lib (always_429 0) \<and> rate_limited ascii_lib (always_429 1)
      \<and> rate_limited ascii_lib (always_429 2)"
    by simp
  from h1' h2 r1 r2 r3 r4 r5 show ?thesis by blast
qed

section \<open>The guards of the synthesizer\<close>

lemma no_sources_message_nonempty: "no_sources_message \<noteq> []"
  by (simp add: no_sources_message_def ustr_def)

text \<open>
  Claim C8, amended. For every state whose \<^verbatim>\<open>report\<close> is a non-empty string,
  \<^verbatim>\<open>synthesizer_agent\<close> returns the state as it is, whatever its \<^verbatim>\<open>sources\<close> are and
  whatever the generation would answer, and makes no generation call.
\<close>

theorem synthesizer_noop_when_report_nonempty:
  "report state = Some r \<Longrightarrow> r \<noteq> [] \<Longrightarrow>
     synthesizer_agent gen (state\<lparr>sources := srcs\<rparr>) =
       \<lparr>result = Inr (state\<lparr>sources := srcs\<rparr>), generation_calls = 0\<rparr>"
  by (simp add: synthesizer_agent_def truthy_def)

text \<open>
  A state with a report and one source that was not there when the report was written.
\<close>

theorem synthesizer_noop_when_report_nonempty_witness:
  "report (example_state\<lparr>report := Some (ustr ''# Report'')\<rparr>) = Some (ustr ''# Report'')
   \<and> ustr ''# Report'' \<noteq> []
   \<and> synthesizer_agent (Inr (ustr ''other''))
        (example_state\<lparr>report := Some (ustr ''# Report''), sources := [example_source]\<rparr>) =
       \<lparr>result = Inr (example_state\<lparr>report := Some (ustr ''# Report''),
                          sources := [example_source]\<rparr>),
        generation_calls = 0\<rparr>"
proof -
  have h1: "report (example_state\<lparr>report := Some (ustr ''# Report'')\<rparr>) = Some (ustr ''# Report'')"
    by simp
  have h2: "ustr ''# Report'' \<noteq> []" by (simp add: ustr_def)
  from synthesizer_noop_when_report_nonempty [OF h1 h2, of "Inr (ustr ''other'')" "[example_source]"]
    h1 h2 show ?thesis by simp
qed

text \<open>
  Claim C8 as stated fails for a report that is set to the empty string: the guard
  \<^verbatim>\<open>if existing_report:\<close> is false for it, the generation is called and the report is
  replaced.
\<close>

theorem synthesizer_empty_report_counterexample:
  "report (example_state\<lparr>report := Some [], sources := [example_source]\<rparr>) \<noteq> None
   \<and> synthesizer_agent (Inr (ustr ''new text''))
        (example_state\<lparr>report := Some [], sources := [example_source]\<rparr>) =
       \<lparr>result = Inr (example_state\<lparr>report := Some (ustr ''new text''),
                          sources := [example_source]\<rparr>),
        generation_calls = 1\<rparr>
   \<and> Some (ustr ''new text'') \<noteq> report (example_state\<lparr>report := Some [], sources := [example_source]\<rparr>)"
  by (simp add: synthesizer_agent_def truthy_def example_state_def ustr_def)

text \<open>
  Claim C9. For every state with no report and an empty \<^verbatim>\<open>sources\<close> list,
  \<^verbatim>\<open>synthesizer_agent\<close> sets \<^verbatim>\<open>report\<close> to the fixed message and returns, without a
  generation call.
\<close>

theorem synthesizer_no_sources:
  "report state = None \<Longrightarrow> sources state = [] \<Longrightarrow>
     synthesizer_agent gen state =
       \<lparr>result = Inr (state\<lparr>report := Some no_sources_message\<rparr>), generation_calls = 0\<rparr>
     \<and> no_sources_message =
         ustr ''No sources were retrieved. Check Tavily key/config or try a different query.''"
  by (simp add: synthesizer_agent_def truthy_def no_sources_message_def)

text \<open>
  The state of a fresh request, with a generation that would raise if it were called.
\<close>

theorem synthesizer_no_sources_witness:
  "report example_state = None \<and> sources example_state = []
   \<and> synthesizer_agent (Inl rate_limit_exceeded) example_state =
       \<lparr>result = Inr (example_state\<lparr>report := Some no_sources_message\<rparr>), generation_calls = 0\<rparr>"
proof -
  have h1: "report example_state = None" by (simp add: example_state_def)
  have h2: "sources example_state = []" by (simp add: example_state_def)
  from synthesizer_no_sources [OF h1 h2, of "Inl rate_limit_exceeded"] h1 h2
  show ?thesis by simp
qed

text \<open>
  Claim C10. For every state whose \<^verbatim>\<open>report\<close> is the empty string, \<^verbatim>\<open>synthesizer_agent\<close>
  does what it does for the same state with no report, and that is never the no-op: with
  sources it makes one generation call and stores the text returned as \<^verbatim>\<open>report\<close> (or
  raises what the call raises), without sources it stores the fixed message.
\<close>

theorem synthesizer_empty_report_is_absent:
  "report state = Some [] \<Longrightarrow>
     synthesizer_agent gen state = synthesizer_agent gen (state\<lparr>report := None\<rparr>)
     \<and> synthesizer_agent gen state \<noteq> \<lparr>result = Inr state, generation_calls = 0\<rparr>
     \<and> (sources state = [] \<longrightarrow>
          synthesizer_agent gen state =
            \<lparr>result = Inr (state\<lparr>report := Some no_sources_message\<rparr>), generation_calls = 0\<rparr>)
     \<and> (sources state \<noteq> [] \<longrightarrow>
          generation_calls (synthesizer_agent gen state) = 1
          \<and> (\<forall>report_text. gen = Inr report_text \<longrightarrow>
                result (synthesizer_agent gen state) = Inr (state\<lparr>report := Some report_text\<rparr>))
          \<and> (\<forall>e. gen = Inl e \<longrightarrow> result (synthesizer_agent gen state) = Inl e))"
proof -
  assume r: "report state = Some []"
  have neq: "state\<lparr>report := Some no_sources_message\<rparr> \<noteq> state"
  proof
    assume "state\<lparr>report := Some no_sources_message\<rparr> = state"
    then have "report (state\<lparr>report := Some no_sources_message\<rparr>) = report state" by simp
    with r no_sources_message_nonempty show False by simp
  qed
  show ?thesis
  proof (cases "sources state = []")
    case True
    with r neq show ?thesis by (simp add: synthesizer_agent_def truthy_def)
  next
    case False
    with r show ?thesis
      by (cases gen) (simp_all add: synthesizer_agent_def truthy_def)
  qed
qed

text \<open>
  A state with an empty report and one source.
\<close>

theorem synthesizer_empty_report_is_absent_witness:
  "report (example_state\<lparr>report := Some [], sources := [example_source]\<rparr>) = Some []
   \<and> sources (example_state\<lparr>report := Some [], sources := [example_source]\<rparr>) \<noteq> []
   \<and> result (synthesizer_agent (Inr (ustr ''new text''))
        (example_state\<lparr>report := Some [], sources := [example_source]\<rparr>)) =
       Inr (example_state\<lparr>report := Some (ustr ''new text''), sources := [example_source]\<rparr>)
   \<and> generation_calls (synthesizer_agent (Inr (ustr ''new text''))
        (example_state\<lparr>report := Some [], sources := [example_source]\<rparr>)) = 1"
proof -
  let ?s = "example_state\<lparr>report := Some [], sources := [example_source]\<rparr>"
  have h1: "report ?s = Some []" by simp
  have h2: "sources ?s \<noteq> []" by simp
  let ?g = "Inr (ustr ''new text'') :: generation"
  have "generation_calls (synthesizer_agent ?g ?s) = 1
        \<and> (\<forall>report_text. ?g = Inr report_text \<longrightarrow>
              result (synthesizer_agent ?g ?s) = Inr (?s\<lparr>report := Some report_text\<rparr>))"
    using synthesizer_empty_report_is_absent [OF h1, of ?g] h2 by blast
  then have "generation_calls (synthesizer_agent ?g ?s) = 1
        \<and> result (synthesizer_agent ?g ?s) = Inr (?s\<lparr>report := Some (ustr ''new text'')\<rparr>)"
    by blast
  with h1 h2 show ?thesis by simp
qed

section \<open>The planner always returns a plan\<close>

lemma numbered_steps_nonblank:
  "x \<in> set (numbered_steps py ls) \<Longrightarrow> \<exists>l \<in> set ls. strip py l \<noteq> []"
  by (induction ls) (auto simp: Let_def split: if_splits)

lemma parse_steps_empty_iff:
  "parse_steps py output = [] \<longleftrightarrow> (\<forall>l \<in> set (split_lines output). strip py l = [])"
proof
  assume e: "parse_steps py output = []"
  show "\<forall>l \<in> set (split_lines output). strip py l = []"
  proof (cases "numbered_steps py (split_lines output) = []")
    case True
    with e have "[strip py s. s \<leftarrow> split_lines output, strip py s \<noteq> []] = []"
      by (simp add: parse_steps_def)
    then show ?thesis by (auto simp: concat_eq_Nil_conv)
  next
    case False
    with e show ?thesis by (simp add: parse_steps_def)
  qed
next
  assume a: "\<forall>l \<in> set (split_lines output). strip py l = []"
  have n: "numbered_steps py (split_lines output) = []"
  proof (rule ccontr)
    assume "numbered_steps py (split_lines output) \<noteq> []"
    then obtain x where "x \<in> set (numbered_steps py (split_lines output))"
      by (cases "numbered_steps py (split_lines output)") auto
    from numbered_steps_nonblank [OF this] a show False by blast
  qed
  from a have "[strip py s. s \<leftarrow> split_lines output, strip py s \<noteq> []] = []"
    by (induction "split_lines output") auto
  with n show "parse_steps py output = []" by (simp add: parse_steps_def)
qed

lemma parse_steps_length: "length (parse_steps py output) \<le> 4"
  by (simp add: parse_steps_def Let_def)

lemma default_steps_length: "length (default_steps t) = 3"
  by (simp add: default_steps_def)

lemma fallback_plan_length: "length (fallback_plan t) = 3"
  by (simp add: fallback_plan_def)

text \<open>
  Claim C6. Whatever the generation call returns or raises, \<^verbatim>\<open>planner_agent\<close> returns a
  state and raises nothing; the plan of that state is not empty and has at most 4 entries,
  and \<^verbatim>\<open>current_step\<close> is 0. If no line of the output has anything but whitespace (no line
  can be parsed as a step), the plan is the three default queries built from the topic; if
  some line has, the plan is the parsed steps; if the call raises, the plan is the three
  fallback queries built from the topic.
\<close>

theorem planner_agent_never_fails:
  "\<exists>state'. planner_agent py gen state = Inr state'
     \<and> plan state' \<noteq> [] \<and> length (plan state') \<le> 4 \<and> current_step state' = 0
     \<and> (\<forall>output. gen = Inr output \<and> (\<forall>l \<in> set (split_lines output). strip py l = [])
           \<longrightarrow> plan state' = default_steps (topic state))
     \<and> (\<forall>output. gen = Inr output \<and> (\<exists>l \<in> set (split_lines output). strip py l \<noteq> [])
           \<longrightarrow> plan state' = parse_steps py output)
     \<and> (\<forall>e. gen = Inl e \<longrightarrow> plan state' = fallback_plan (topic state))
     \<and> length (default_steps (topic state)) = 3 \<and> length (fallback_plan (topic state)) = 3"
proof (cases gen)
  case (Inl e)
  then show ?thesis
    by (simp add: planner_agent_def planner_try_def fallback_plan_def default_steps_def)
next
  case (Inr out)
  show ?thesis
  proof (cases "parse_steps py out = []")
    case True
    with Inr parse_steps_empty_iff [of py out] show ?thesis
      by (simp add: planner_agent_def planner_try_def fallback_plan_def default_steps_def)
  next
    case False
    then have "\<exists>l \<in> set (split_lines out). strip py l \<noteq> []"
      using parse_steps_empty_iff [of py out] by blast
    with False Inr parse_steps_length [of py out] show ?thesis
      by (auto simp add: planner_agent_def planner_try_def fallback_plan_def default_steps_def Let_def)
  qed
qed

lemma split_blank: "split_lines blank_output = [ustr ''  '', [9], []]"
  by (simp add: blank_output_def ustr_def)

lemma strip_blank: "strip ascii_lib (ustr ''  '') = []" "strip ascii_lib [9] = []" "strip ascii_lib [] = []"
  by (simp_all add: strip_def ascii_lib_def ustr_def)

lemma parse_numbered: "parse_steps ascii_lib numbered_output = [ustr ''alpha'', ustr ''beta'', ustr ''gamma'']"
  by (simp add: parse_steps_def numbered_output_def ustr_def strip_def ascii_lib_def
      lstrip_chars_def numbering_chars_def bullet_def Let_def)

lemma split_numbered:
  "split_lines numbered_output =
     [ustr ''1. alpha'', ustr ''  - beta'', [], ustr ''note'', bullet # ustr '' gamma'']"
  by (simp add: numbered_output_def ustr_def bullet_def)

lemma strip_numbered: "strip ascii_lib (ustr ''1. alpha'') = ustr ''1. alpha''"
  by (simp add: strip_def ascii_lib_def ustr_def)

text \<open>
  Two outputs: one of blank lines only, and one with a numbered, a hyphenated and a
  bulleted line.
\<close>

theorem planner_agent_never_fails_witness:
  "(strip ascii_lib (ustr ''  '') = [] \<and> strip ascii_lib [9] = [] \<and> strip ascii_lib [] = [])
   \<and> split_lines blank_output = [ustr ''  '', [9], []]
   \<and> (\<exists>state'. planner_agent ascii_lib (Inr blank_output) example_state = Inr state'
        \<and> plan state' =
            [ustr ''Find recent articles about Quantum computing'',
             ustr ''Search for expert opinions on Quantum computing'',
             ustr ''Look for case studies related to Quantum computing'']
        \<and> current_step state' = 0)
   \<and> ustr ''1. alpha'' \<in> set (split_lines numbered_output)
   \<and> strip ascii_lib (ustr ''1. alpha'') \<noteq> []
   \<and> (\<exists>state'. planner_agent ascii_lib (Inr numbered_output) example_state = Inr state'
        \<and> plan state' = [ustr ''alpha'', ustr ''beta'', ustr ''gamma'']
        \<and> current_step state' = 0)"
proof -
  have h: "\<forall>l \<in> set (split_lines blank_output). strip ascii_lib l = []"
    by (simp add: split_blank strip_blank)
  from planner_agent_never_fails [of ascii_lib "Inr blank_output" example_state]
  obtain state' where s: "planner_agent ascii_lib (Inr blank_output) example_state = Inr state'"
    "current_step state' = 0"
    "\<forall>output. Inr blank_output = (Inr output :: generation)
        \<and> (\<forall>l \<in> set (split_lines output). strip ascii_lib l = [])
        \<longrightarrow> plan state' = default_steps (topic example_state)"
    by blast
  from s(3) h have "plan state' = default_steps (topic example_state)" by blast
  then have "plan state' =
            [ustr ''Find recent articles about Quantum computing'',
             ustr ''Search for expert opinions on Quantum computing'',
             ustr ''Look for case studies related to Quantum computing'']"
    by (simp add: default_steps_def example_state_def ustr_def)
  with s(1,2) have first: "\<exists>state'. planner_agent ascii_lib (Inr blank_output) example_state = Inr state'
        \<and> plan state' =
            [ustr ''Find recent articles about Quantum computing'',
             ustr ''Search for expert opinions on Quantum computing'',
             ustr ''Look for case studies related to Quantum computing'']
        \<and> current_step state' = 0"
    by blast
  have m: "ustr ''1. alpha'' \<in> set (split_lines numbered_output)"
    by (simp add: split_numbered)
  have n: "strip ascii_lib (ustr ''1. alpha'') \<noteq> []"
    by (simp add: strip_numbered) (simp add: ustr_def)
  from m n have h2: "\<exists>l \<in> set (split_lines numbered_output). strip ascii_lib l \<noteq> []"
    by blast
  from planner_agent_never_fails [of ascii_lib "Inr numbered_output" example_state]
  obtain state2 where t: "planner_agent ascii_lib (Inr numbered_output) example_state = Inr state2"
    "current_step state2 = 0"
    "\<forall>output. Inr numbered_output = (Inr output :: generation)
        \<and> (\<exists>l \<in> set (split_lines output). strip ascii_lib l \<noteq> [])
        \<longrightarrow> plan state2 = parse_steps ascii_lib output"
    by blast
  from t(3) h2 have "plan state2 = parse_steps ascii_lib numbered_output" by blast
  with t(1,2) have second: "\<exists>state'. planner_agent ascii_lib (Inr numbered_output) example_state = Inr state'
        \<and> plan state' = [ustr ''alpha'', ustr ''beta'', ustr ''gamma'']
        \<and> current_step state' = 0"
    by (simp add: parse_numbered)
  from first second m n split_blank strip_blank show ?thesis by blast
qed

section \<open>The searcher keeps urls distinct\<close>

lemma add_results_spec:
  "set (map url srcs) \<subseteq> seen \<Longrightarrow> distinct (map url srcs) \<Longrightarrow>
   \<exists>added. add_results rs seen srcs = srcs @ added
     \<and> distinct (map url (srcs @ added))
     \<and> (\<forall>src \<in> set added. \<exists>u. url src = Some u \<and> u \<noteq> [])"
proof (induction rs arbitrary: seen srcs)
  case Nil
  then show ?case by simp
next
  case (Cons r rs)
  show ?case
  proof (cases "result_url r")
    case None
    with Cons.IH [OF Cons.prems] show ?thesis by simp
  next
    case (Some u)
    show ?thesis
    proof (cases "u = [] \<or> Some u \<in> seen")
      case True
      with Some Cons.IH [OF Cons.prems] show ?thesis by auto
    next
      case False
      define new where "new = \<lparr>url = Some u,
          content = Some (take 4000 (case result_content r of None \<Rightarrow> [] | Some c \<Rightarrow> c)),
          source_type = Some (ustr ''tavily''), score = None, eval_error = None\<rparr>"
      have u: "url new = Some u" by (simp add: new_def)
      from False Cons.prems have sub: "set (map url (srcs @ [new])) \<subseteq> insert (Some u) seen"
        and dis: "distinct (map url (srcs @ [new]))"
        using u by auto
      from Cons.IH [OF sub dis] obtain added where
        a: "add_results rs (insert (Some u) seen) (srcs @ [new]) = (srcs @ [new]) @ added"
          "distinct (map url ((srcs @ [new]) @ added))"
          "\<forall>src \<in> set added. \<exists>u. url src = Some u \<and> u \<noteq> []"
        by blast
      from False Some a(1) have "add_results (r # rs) seen srcs = srcs @ (new # added)"
        by (simp add: new_def)
      moreover from a(2) have "distinct (map url (srcs @ (new # added)))" by simp
      moreover from a(3) u False have "\<forall>src \<in> set (new # added). \<exists>u. url src = Some u \<and> u \<noteq> []"
        by simp
      ultimately show ?thesis by blast
    qed
  qed
qed

lemma search_agent_sources:
  assumes "search_agent api_key tavily state = Inr state'"
  shows "state' = state \<or> (\<exists>rs. sources state' =
            add_results rs (set (map url (sources state))) (sources state))"
  using assms by (auto simp: search_agent_def split: if_splits sum.splits)

lemma search_agent_distinct:
  assumes d: "distinct (map url (sources state))"
    and s: "search_agent api_key tavily state = Inr state'"
  shows "(\<exists>added. sources state' = sources state @ added
           \<and> (\<forall>src \<in> set added. \<exists>u. url src = Some u \<and> u \<noteq> []))
         \<and> distinct (map url (sources state'))"
proof -
  from search_agent_sources [OF s] show ?thesis
  proof
    assume "state' = state"
    with d show ?thesis by simp
  next
    assume "\<exists>rs. sources state' = add_results rs (set (map url (sources state))) (sources state)"
    then obtain rs where rs: "sources state' =
        add_results rs (set (map url (sources state))) (sources state)" by blast
    from add_results_spec [of "sources state" "set (map url (sources state))" rs] d
    obtain added where "add_results rs (set (map url (sources state))) (sources state)
         = sources state @ added"
      "distinct (map url (sources state @ added))"
      "\<forall>src \<in> set added. \<exists>u. url src = Some u \<and> u \<noteq> []"
      by auto
    with rs show ?thesis by auto
  qed
qed

text \<open>
  Claim C4. If the urls of \<^verbatim>\<open>sources\<close> are pairwise distinct and \<^verbatim>\<open>search_agent\<close>
  returns, then the new \<^verbatim>\<open>sources\<close> are the old ones followed by the appended records,
  every appended record has a url that is present and not empty, the urls are still pairwise
  distinct, and they stay so after any further run of \<^verbatim>\<open>search_agent\<close>, whatever the
  searches return.
\<close>

theorem search_agent_urls_distinct:
  "distinct (map url (sources state)) \<Longrightarrow> search_agent api_key tavily state = Inr state' \<Longrightarrow>
     (\<exists>added. sources state' = sources state @ added
        \<and> (\<forall>src \<in> set added. \<exists>u. url src = Some u \<and> u \<noteq> []))
     \<and> distinct (map url (sources state'))
     \<and> (\<forall>api_key2 tavily2 state''. search_agent api_key2 tavily2 state' = Inr state''
           \<longrightarrow> distinct (map url (sources state'')))"
proof -
  assume d: "distinct (map url (sources state))"
    and s: "search_agent api_key tavily state = Inr state'"
  note first = search_agent_distinct [OF d s]
  then have d': "distinct (map url (sources state'))" by blast
  have "distinct (map url (sources state''))"
    if "search_agent api_key2 tavily2 state' = Inr state''" for api_key2 tavily2 state''
    using search_agent_distinct [OF d' that] by blast
  with first show ?thesis by blast
qed

lemma add_overlapping:
  "add_results overlapping_results (set (map url [source_a])) [source_a] =
     [source_a, source_b]"
  by (simp add: overlapping_results_def source_a_def source_b_def ustr_def)

lemma add_overlapping_again:
  "add_results overlapping_results (set (map url [source_a, source_b])) [source_a, source_b] =
     [source_a, source_b]"
  by (simp add: overlapping_results_def source_a_def source_b_def ustr_def)

lemma search_first_step:
  "search_agent (Some (ustr ''tvly-key'')) (\<lambda>query. Inr overlapping_results) two_step_state =
     Inr (two_step_state\<lparr>sources := [source_a, source_b], current_step := 1\<rparr>)"
  using add_overlapping
  by (simp add: search_agent_def two_step_state_def py_index_def ustr_def)

lemma search_second_step:
  "search_agent (Some (ustr ''tvly-key'')) (\<lambda>query. Inr overlapping_results)
     (two_step_state\<lparr>sources := [source_a, source_b], current_step := 1\<rparr>) =
     Inr (two_step_state\<lparr>sources := [source_a, source_b], current_step := 2\<rparr>)"
  using add_overlapping_again
  by (simp add: search_agent_def two_step_state_def py_index_def ustr_def)

text \<open>
  A state with one source and a search that returns that source's url again, a new url
  twice, an empty url and a result without url; the same results once more in the next
  step.
\<close>

theorem search_agent_urls_distinct_witness:
  "distinct (map url (sources two_step_state))
   \<and> search_agent (Some (ustr ''tvly-key'')) (\<lambda>query. Inr overlapping_results) two_step_state =
       Inr (two_step_state\<lparr>sources := [source_a, source_b], current_step := 1\<rparr>)
   \<and> distinct (map url [source_a, source_b])
   \<and> search_agent (Some (ustr ''tvly-key'')) (\<lambda>query. Inr overlapping_results)
       (two_step_state\<lparr>sources := [source_a, source_b], current_step := 1\<rparr>) =
       Inr (two_step_state\<lparr>sources := [source_a, source_b], current_step := 2\<rparr>)"
proof -
  have h1: "distinct (map url (sources two_step_state))"
    by (simp add: two_step_state_def)
  note h2 = search_first_step
  from search_agent_urls_distinct [OF h1 h2]
  have "distinct (map url (sources (two_step_state\<lparr>sources := [source_a, source_b], current_step := 1\<rparr>)))"
    by blast
  then have "distinct (map url [source_a, source_b])" by simp
  with h1 h2 search_second_step show ?thesis by blast
qed

section \<open>The search and evaluate loop\<close>

lemma evaluator_agent_cursor:
  "evaluator_agent py g s = Inr s' \<Longrightarrow> plan s' = plan s \<and> current_step s' = current_step s"
  by (auto simp: evaluator_agent_def split: if_splits sum.splits)

lemma evaluator_agent_returns: "\<exists>s'. evaluator_agent py (Inr raw) s = Inr s'"
  by (simp add: evaluator_agent_def split: sum.splits)

lemma search_agent_cursor:
  "search_agent key t s = Inr s' \<Longrightarrow>
     plan s' = plan s
     \<and> (current_step s < int (length (plan s)) \<longrightarrow> current_step s' = current_step s + 1)
     \<and> (int (length (plan s)) \<le> current_step s \<longrightarrow> s' = s)"
  by (auto simp: search_agent_def split: if_splits sum.splits)

lemma py_index_in_range:
  "- int (length xs) \<le> i \<Longrightarrow> i < int (length xs) \<Longrightarrow> \<exists>x. py_index xs i = Inr x"
  by (simp add: py_index_def)

lemma loop_calls:
  "search_evaluate_loop py key tv gen k state = Inr (final, n) \<Longrightarrow>
     n = k + (if current_step state < int (length (plan state))
              then nat (int (length (plan state)) - current_step state) else 1)
     \<and> plan final = plan state
     \<and> current_step final = max (current_step state) (int (length (plan state)))
     \<and> should_continue final = Synthesize"
proof (induction py key tv gen k state rule: search_evaluate_loop.induct)
  case (1 py key tv gen k state)
  from "1.prems" obtain searched where s: "search_agent key (tv k) state = Inr searched"
    by (subst (asm) search_evaluate_loop.simps) (auto split: sum.splits)
  from "1.prems" s obtain evaluated where e: "evaluator_agent py (gen k) searched = Inr evaluated"
    by (subst (asm) search_evaluate_loop.simps) (auto split: sum.splits)
  note sc = search_agent_cursor [OF s]
  note ec = evaluator_agent_cursor [OF e]
  show ?case
  proof (cases "should_continue evaluated")
    case Search
    with "1.prems" s e have r: "search_evaluate_loop py key tv gen (k + 1) evaluated = Inr (final, n)"
      by (subst (asm) search_evaluate_loop.simps) simp
    from Search have lt: "current_step evaluated < int (length (plan evaluated))"
      by (simp add: should_continue_def split: if_splits)
    with sc ec have lt0: "current_step state < int (length (plan state))"
      by (cases "current_step state < int (length (plan state))") auto
    from "1.IH" [OF s e Search r] lt
    have "n = k + 1 + nat (int (length (plan evaluated)) - current_step evaluated)"
      and rest: "plan final = plan evaluated"
        "current_step final = max (current_step evaluated) (int (length (plan evaluated)))"
        "should_continue final = Synthesize"
      by simp_all
    with sc ec lt0 lt show ?thesis by auto
  next
    case Synthesize
    with "1.prems" s e have r: "final = evaluated" "n = k + 1"
      by (subst (asm) search_evaluate_loop.simps, simp)+
    from Synthesize have ge: "int (length (plan evaluated)) \<le> current_step evaluated"
      by (simp add: should_continue_def split: if_splits)
    with sc ec r Synthesize show ?thesis
      by (cases "current_step state < int (length (plan state))") auto
  qed
qed

lemma loop_returns:
  assumes key: "key \<noteq> None" "key \<noteq> Some []"
    and tv: "\<forall>k q. \<exists>rs. tv k q = Inr rs"
    and gen: "\<forall>k. \<exists>raw. gen k = Inr raw"
    and lo: "- int (length (plan state)) \<le> current_step state"
  shows "\<exists>final n. search_evaluate_loop py key tv gen k state = Inr (final, n)"
  using assms
proof (induction py key tv gen k state rule: search_evaluate_loop.induct)
  case (1 py key tv gen k state)
  note key = "1.prems"(1,2) and tv = "1.prems"(3) and gen = "1.prems"(4) and lo = "1.prems"(5)
  have "\<exists>searched. search_agent key (tv k) state = Inr searched"
  proof (cases "int (length (plan state)) \<le> current_step state")
    case True
    then show ?thesis by (simp add: search_agent_def)
  next
    case False
    with lo obtain q where "py_index (plan state) (current_step state) = Inr q"
      using py_index_in_range [of "plan state" "current_step state"] by auto
    moreover from tv obtain rs where "tv k q = Inr rs" by blast
    ultimately show ?thesis using key False by (auto simp: search_agent_def)
  qed
  then obtain searched where s: "search_agent key (tv k) state = Inr searched" by blast
  from gen obtain raw where "gen k = Inr raw" by blast
  with evaluator_agent_returns [of py raw searched]
  obtain evaluated where e: "evaluator_agent py (gen k) searched = Inr evaluated" by auto
  note sc = search_agent_cursor [OF s]
  note ec = evaluator_agent_cursor [OF e]
  show ?case
  proof (cases "should_continue evaluated")
    case Search
    from sc ec lo have "- int (length (plan evaluated)) \<le> current_step evaluated"
      by (cases "current_step state < int (length (plan state))") auto
    from "1.IH" [OF s e Search key tv gen this] s e Search show ?thesis
      by (subst search_evaluate_loop.simps) simp
  next
    case Synthesize
    with s e show ?thesis by (subst search_evaluate_loop.simps) simp
  qed
qed

text \<open>
  Claim C2, amended. A \<^verbatim>\<open>search_agent\<close> call that returns leaves the plan as it is; if
  \<^verbatim>\<open>current_step < len(plan)\<close> it increases \<^verbatim>\<open>current_step\<close> by exactly 1, whatever the
  search returned, and otherwise it returns the state unchanged. The search/evaluate loop,
  entered with \<^verbatim>\<open>0 <= current_step < len(plan)\<close>, always ends; when it ends at the
  \<^verbatim>\<open>synthesize\<close> transition it has made exactly \<^verbatim>\<open>len(plan) - current_step\<close> calls of
  \<^verbatim>\<open>search_agent\<close>, which is at most \<^verbatim>\<open>len(plan)\<close>; and it does end there whenever the
  search key is set and no search or generation call raises, whatever the searches return.
\<close>

theorem search_loop_bounded:
  "(\<forall>state'. search_agent api_key t state = Inr state' \<longrightarrow>
       plan state' = plan state
       \<and> (current_step state < int (length (plan state))
            \<longrightarrow> current_step state' = current_step state + 1)
       \<and> (int (length (plan state)) \<le> current_step state \<longrightarrow> state' = state))
   \<and> (0 \<le> current_step state \<and> current_step state < int (length (plan state)) \<longrightarrow>
        (\<forall>final n. search_evaluate_loop py api_key tavily gen 0 state = Inr (final, n) \<longrightarrow>
            n = nat (int (length (plan state)) - current_step state)
            \<and> n \<le> length (plan state)
            \<and> should_continue final = Synthesize)
        \<and> (api_key \<noteq> None \<and> api_key \<noteq> Some []
            \<and> (\<forall>k query. \<exists>results. tavily k query = Inr results)
            \<and> (\<forall>k. \<exists>raw. gen k = Inr raw)
            \<longrightarrow> (\<exists>final. search_evaluate_loop py api_key tavily gen 0 state =
                   Inr (final, nat (int (length (plan state)) - current_step state)))))"
proof -
  have a: "plan state' = plan state
       \<and> (current_step state < int (length (plan state))
            \<longrightarrow> current_step state' = current_step state + 1)
       \<and> (int (length (plan state)) \<le> current_step state \<longrightarrow> state' = state)"
    if "search_agent api_key t state = Inr state'" for state'
    using search_agent_cursor [OF that] .
  have b: "n = nat (int (length (plan state)) - current_step state)
            \<and> n \<le> length (plan state) \<and> should_continue final = Synthesize"
    if "0 \<le> current_step state" "current_step state < int (length (plan state))"
      "search_evaluate_loop py api_key tavily gen 0 state = Inr (final, n)" for final n
    using loop_calls [OF that(3)] that(1,2) by auto
  have c: "\<exists>final. search_evaluate_loop py api_key tavily gen 0 state =
                   Inr (final, nat (int (length (plan state)) - current_step state))"
    if r: "0 \<le> current_step state" "current_step state < int (length (plan state))"
      and k: "api_key \<noteq> None" "api_key \<noteq> Some []"
      and tv: "\<forall>k query. \<exists>results. tavily k query = Inr results"
      and g: "\<forall>k. \<exists>raw. gen k = Inr raw"
  proof -
    from r have "- int (length (plan state)) \<le> current_step state" by simp
    from loop_returns [OF k tv g this, of py 0]
    obtain final n where f: "search_evaluate_loop py api_key tavily gen 0 state = Inr (final, n)"
      by blast
    with b [OF r f] show ?thesis by blast
  qed
  from a b c show ?thesis by blast
qed

text \<open>
  A plan of two steps with searches that find nothing: each call moves the cursor, and the
  loop hands over to \<^verbatim>\<open>synthesize\<close> after two calls.
\<close>

theorem search_loop_bounded_witness:
  "(0 \<le> current_step (two_step_state\<lparr>sources := []\<rparr>)
    \<and> current_step (two_step_state\<lparr>sources := []\<rparr>)
        < int (length (plan (two_step_state\<lparr>sources := []\<rparr>))))
   \<and> Some (ustr ''tvly-key'') \<noteq> None \<and> Some (ustr ''tvly-key'') \<noteq> Some []
   \<and> search_agent (Some (ustr ''tvly-key'')) no_results (two_step_state\<lparr>sources := []\<rparr>) =
        Inr (two_step_state\<lparr>sources := [], current_step := 1\<rparr>)
   \<and> (\<exists>final. search_evaluate_loop ascii_lib (Some (ustr ''tvly-key'')) (\<lambda>k. no_results)
          (\<lambda>k. Inr (ustr ''[]'')) 0 (two_step_state\<lparr>sources := []\<rparr>) = Inr (final, 2))"
proof -
  let ?s = "two_step_state\<lparr>sources := []\<rparr>"
  let ?key = "Some (ustr ''tvly-key'')"
  have r: "0 \<le> current_step ?s \<and> current_step ?s < int (length (plan ?s))"
    by (simp add: two_step_state_def)
  have k: "?key \<noteq> None \<and> ?key \<noteq> Some []" by (simp add: ustr_def)
  have tv: "\<forall>k query. \<exists>results. (\<lambda>k. no_results) k query = Inr results"
    by (simp add: no_results_def)
  have g: "\<forall>k. \<exists>raw. (\<lambda>k. Inr (ustr ''[]'') :: generation) k = Inr raw" by simp
  have one: "search_agent ?key no_results ?s = Inr (?s\<lparr>current_step := 1\<rparr>)"
    by (simp add: search_agent_def two_step_state_def py_index_def no_results_def ustr_def)
  have n: "nat (int (length (plan ?s)) - current_step ?s) = 2"
    by (simp add: two_step_state_def)
  from search_loop_bounded [of ?key no_results ?s ascii_lib "\<lambda>k. no_results"
      "\<lambda>k. Inr (ustr ''[]'')"] r k tv g
  have "\<exists>final. search_evaluate_loop ascii_lib ?key (\<lambda>k. no_results)
          (\<lambda>k. Inr (ustr ''[]'')) 0 ?s = Inr (final, nat (int (length (plan ?s)) - current_step ?s))"
    by blast
  with n have "\<exists>final. search_evaluate_loop ascii_lib ?key (\<lambda>k. no_results)
          (\<lambda>k. Inr (ustr ''[]'')) 0 ?s = Inr (final, 2)"
    by simp
  with r k one show ?thesis by simp
qed

text \<open>
  Claim C2 as stated fails at a state whose plan is used up: the guard at the top of
  \<^verbatim>\<open>search_agent\<close> returns the state as it is, so a second call on a plan of one step
  leaves \<^verbatim>\<open>current_step\<close> at 1.
\<close>

theorem search_agent_exhausted_plan_counterexample:
  "search_agent (Some (ustr ''tvly-key'')) no_results one_step_state =
     Inr (one_step_state\<lparr>current_step := 1\<rparr>)
   \<and> search_agent (Some (ustr ''tvly-key'')) no_results (one_step_state\<lparr>current_step := 1\<rparr>) =
     Inr (one_step_state\<lparr>current_step := 1\<rparr>)
   \<and> \<not> (\<forall>api_key tavily state state'. search_agent api_key tavily state = Inr state'
          \<longrightarrow> current_step state' = current_step state + 1)"
proof -
  have one: "search_agent (Some (ustr ''tvly-key'')) no_results one_step_state =
     Inr (one_step_state\<lparr>current_step := 1\<rparr>)"
    by (simp add: search_agent_def one_step_state_def py_index_def no_results_def ustr_def)
  have two: "search_agent (Some (ustr ''tvly-key'')) no_results (one_step_state\<lparr>current_step := 1\<rparr>) =
     Inr (one_step_state\<lparr>current_step := 1\<rparr>)"
    by (simp add: search_agent_def one_step_state_def)
  have "\<not> (\<forall>api_key tavily state state'. search_agent api_key tavily state = Inr state'
          \<longrightarrow> current_step state' = current_step state + 1)"
  proof
    assume "\<forall>api_key tavily state state'. search_agent api_key tavily state = Inr state'
          \<longrightarrow> current_step state' = current_step state + 1"
    with two have "current_step (one_step_state\<lparr>current_step := 1\<rparr>)
        = current_step (one_step_state\<lparr>current_step := 1\<rparr>) + 1"
      by blast
    then show False by simp
  qed
  with one two show ?thesis by blast
qed

section \<open>The evaluator: the kept list\<close>

lemma already_scored_filter_from:
  "[src. (i, src) \<leftarrow> enumerate n srcs, score src \<noteq> None] = filter (\<lambda>src. score src \<noteq> None) srcs"
  by (induction srcs arbitrary: n) auto

lemma already_scored_filter:
  "already_scored srcs = filter (\<lambda>src. score src \<noteq> None) srcs"
  unfolding already_scored_def by (rule already_scored_filter_from)

lemma comprehension_enumerate:
  "[f i src. (i, src) \<leftarrow> enumerate n srcs, P src] =
     map (\<lambda>(i, src). f i src) (filter (\<lambda>(i, src). P src) (enumerate n srcs))"
  by (induction srcs arbitrary: n) auto

lemma to_score_items_map:
  "to_score_items srcs =
     map (\<lambda>(i, src). \<lparr>item_id = i,
            item_url = (case url src of None \<Rightarrow> [] | Some u \<Rightarrow> u),
            item_snippet = take 600 (case content src of None \<Rightarrow> [] | Some c \<Rightarrow> c)\<rparr>)
         (filter (\<lambda>(i, src). score src = None) (enumerate 0 srcs))"
  unfolding to_score_items_def by (rule comprehension_enumerate)

lemma attach_by_index:
  "map (\<lambda>item. g (item_id item) (srcs ! item_id item)) (to_score_items srcs) =
     map (\<lambda>(i, src). g i src) (filter (\<lambda>(i, src). score src = None) (enumerate 0 srcs))"
proof -
  have "map (\<lambda>item. g (item_id item) (srcs ! item_id item)) (to_score_items srcs) =
        map (\<lambda>(i, src). g i (srcs ! i)) (filter (\<lambda>(i, src). score src = None) (enumerate 0 srcs))"
    by (simp add: to_score_items_map comp_def case_prod_unfold)
  also have "\<dots> = map (\<lambda>(i, src). g i src) (filter (\<lambda>(i, src). score src = None) (enumerate 0 srcs))"
    by (rule map_cong) (auto simp: in_set_enumerate_eq)
  finally show ?thesis .
qed

lemma kept_on_success_eq:
  "kept_on_success score_map srcs =
     filter (\<lambda>src. score src \<noteq> None) srcs @
     map (\<lambda>(i, src). src\<lparr>score := Some (case score_map (int i) of None \<Rightarrow> 0.3 | Some v \<Rightarrow> v)\<rparr>)
       (filter (\<lambda>(i, src). score src = None) (enumerate 0 srcs))"
  unfolding kept_on_success_def already_scored_filter
  using attach_by_index [of "\<lambda>i src. src\<lparr>score := Some (case score_map (int i) of None \<Rightarrow> 0.3 | Some v \<Rightarrow> v)\<rparr>" srcs]
  by simp

lemma kept_on_failure_eq:
  "kept_on_failure msg srcs =
     filter (\<lambda>src. score src \<noteq> None) srcs @
     map (\<lambda>src. src\<lparr>score := Some 0.3, eval_error := Some (ustr ''JSON parse failed: '' @ msg)\<rparr>)
       (filter (\<lambda>src. score src = None) srcs)"
proof -
  have "map (\<lambda>(i, src). src\<lparr>score := Some 0.3, eval_error := Some (ustr ''JSON parse failed: '' @ msg)\<rparr>)
          (filter (\<lambda>(i, src). score src = None) (enumerate n srcs)) =
        map (\<lambda>src. src\<lparr>score := Some 0.3, eval_error := Some (ustr ''JSON parse failed: '' @ msg)\<rparr>)
          (filter (\<lambda>src. score src = None) srcs)" for n
    by (induction srcs arbitrary: n) auto
  with attach_by_index [of "\<lambda>i src. src\<lparr>score := Some 0.3, eval_error := Some (ustr ''JSON parse failed: '' @ msg)\<rparr>" srcs]
  show ?thesis
    unfolding kept_on_failure_def already_scored_filter by simp
qed

lemma to_score_items_empty_iff:
  "to_score_items srcs = [] \<longleftrightarrow> (\<forall>src \<in> set srcs. score src \<noteq> None)"
proof -
  have "filter (\<lambda>(i, src). score src = None) (enumerate n srcs) = []
        \<longleftrightarrow> (\<forall>src \<in> set srcs. score src \<noteq> None)" for n
    by (induction srcs arbitrary: n) auto
  then show ?thesis by (simp add: to_score_items_map)
qed

lemma length_unscored:
  "length (filter (\<lambda>(i, src). score src = None) (enumerate n srcs)) =
     length (filter (\<lambda>src. score src = None) srcs)"
  by (induction srcs arbitrary: n) auto

lemma length_kept_on_success: "length (kept_on_success score_map srcs) = length srcs"
  using sum_length_filter_compl [of "\<lambda>src. score src \<noteq> None" srcs]
  by (simp add: kept_on_success_eq length_unscored)

lemma length_kept_on_failure: "length (kept_on_failure msg srcs) = length srcs"
  using sum_length_filter_compl [of "\<lambda>src. score src \<noteq> None" srcs]
  by (simp add: kept_on_failure_eq)

lemma sorted_reverse_descending:
  "sorted_wrt (\<lambda>a b. key b \<le> key a) (sorted_reverse key xs)"
  using sorted_sort_key [of "\<lambda>x. - key x" xs]
  by (simp add: sorted_reverse_def sorted_map)

lemma sorted_reverse_mset: "mset (sorted_reverse key xs) = mset xs"
  by (simp add: sorted_reverse_def)

lemma sorted_reverse_stable:
  "filter (\<lambda>x. key x = v) (sorted_reverse key xs) = filter (\<lambda>x. key x = v) xs"
  using sort_key_stable [of "\<lambda>x. - key x" "- v" xs]
  by (simp add: sorted_reverse_def)

lemma filter_or_top3_nonempty: "kept \<noteq> [] \<Longrightarrow> filter_or_top3 kept \<noteq> []"
proof -
  assume "kept \<noteq> []"
  then have "length (sorted_reverse score_key kept) \<noteq> 0"
    by (simp add: sorted_reverse_def)
  then have "take 3 (sorted_reverse score_key kept) \<noteq> []" by auto
  then show ?thesis by (simp add: filter_or_top3_def Let_def)
qed

text \<open>
  Claim C3. If \<^verbatim>\<open>sources\<close> is not empty before \<^verbatim>\<open>evaluator_agent\<close> runs, it is not empty
  in any state the agent returns, whatever the scores are; and the agent does return a state
  whenever the generation call returns. (When the generation call raises, the agent raises
  the same exception, unless nothing was left to score.)
\<close>

theorem evaluator_never_empties_sources:
  "sources state \<noteq> [] \<Longrightarrow>
     (\<forall>state'. evaluator_agent py gen state = Inr state' \<longrightarrow> sources state' \<noteq> [])
     \<and> (\<forall>raw. gen = Inr raw \<longrightarrow> (\<exists>state'. evaluator_agent py gen state = Inr state'))
     \<and> (\<forall>e. gen = Inl e \<longrightarrow> evaluator_agent py gen state = Inl e
           \<or> evaluator_agent py gen state = Inr state)"
proof -
  assume ne: "sources state \<noteq> []"
  have a: "sources state' \<noteq> []" if r: "evaluator_agent py gen state = Inr state'" for state'
  proof (cases "to_score_items (sources state) = []")
    case True
    then have "filter (\<lambda>src. score src \<noteq> None) (sources state) = sources state"
      by (simp add: to_score_items_empty_iff)
    with True r ne show ?thesis
      by (auto simp: evaluator_agent_def already_scored_filter)
  next
    case False
    from ne have k1: "kept_on_failure msg (sources state) \<noteq> []" for msg
      using length_kept_on_failure [of msg "sources state"] by auto
    from ne have "kept_on_success m (sources state) \<noteq> []" for m
      using length_kept_on_success [of m "sources state"] by auto
    then have k2: "filter_or_top3 (kept_on_success m (sources state)) \<noteq> []" for m
      by (rule filter_or_top3_nonempty)
    from False r ne k1 k2 show ?thesis
      by (auto simp: evaluator_agent_def split: sum.splits)
  qed
  have b: "\<exists>state'. evaluator_agent py gen state = Inr state'" if "gen = Inr raw" for raw
    using that by (simp add: evaluator_agent_def split: sum.splits)
  have c: "evaluator_agent py gen state = Inl e \<or> evaluator_agent py gen state = Inr state"
    if "gen = Inl e" for e
  proof (cases "to_score_items (sources state) = []")
    case True
    then have "filter (\<lambda>src. score src \<noteq> None) (sources state) = sources state"
      by (simp add: to_score_items_empty_iff)
    with True show ?thesis by (simp add: evaluator_agent_def already_scored_filter)
  next
    case False
    with ne that show ?thesis by (simp add: evaluator_agent_def)
  qed
  from a b c show ?thesis by blast
qed

section \<open>The evaluator: filter and fallback\<close>

lemma ex_to_score: "to_score_items (sources four_sources_state) =
   [\<lparr>item_id = 0, item_url = ustr ''https://a.example'', item_snippet = ustr ''A''\<rparr>,
    \<lparr>item_id = 1, item_url = ustr ''https://b.example'', item_snippet = ustr ''B''\<rparr>,
    \<lparr>item_id = 2, item_url = ustr ''https://c.example'', item_snippet = ustr ''C''\<rparr>,
    \<lparr>item_id = 3, item_url = ustr ''https://d.example'', item_snippet = ustr ''D''\<rparr>]"
  by (simp add: to_score_items_def four_sources_state_def source_a_def source_b_def source_c_def
      source_d_def ustr_def)

lemma ex_low_map:
  "build_score_map (json_lib low_scores) (score_list low_scores) Map.empty =
     [0 \<mapsto> 0.3, 1 \<mapsto> 0.5, 2 \<mapsto> 0.2, 3 \<mapsto> 0.5]"
  by (simp add: low_scores_def score_object_def score_entry_def ustr_def)

lemma ex_mixed_map:
  "build_score_map (json_lib (JArr mixed_entries)) mixed_entries Map.empty = [0 \<mapsto> 1, 3 \<mapsto> 0]"
  by (simp add: mixed_entries_def score_object_def score_entry_def ustr_def json_lib_def ascii_lib_def)

lemma ex_low_kept:
  "kept_on_success [0 \<mapsto> 0.3, 1 \<mapsto> 0.5, 2 \<mapsto> 0.2, 3 \<mapsto> 0.5] (sources four_sources_state) =
     [source_a\<lparr>score := Some 0.3\<rparr>, source_b\<lparr>score := Some 0.5\<rparr>,
      source_c\<lparr>score := Some 0.2\<rparr>, source_d\<lparr>score := Some 0.5\<rparr>]"
  unfolding kept_on_success_def ex_to_score
  by (simp add: already_scored_def four_sources_state_def source_a_def source_b_def source_c_def
      source_d_def)

lemma ex_low_top3:
  "filter_or_top3 [source_a\<lparr>score := Some 0.3\<rparr>, source_b\<lparr>score := Some 0.5\<rparr>,
      source_c\<lparr>score := Some 0.2\<rparr>, source_d\<lparr>score := Some 0.5\<rparr>] =
   [source_b\<lparr>score := Some 0.5\<rparr>, source_d\<lparr>score := Some 0.5\<rparr>, source_a\<lparr>score := Some 0.3\<rparr>]"
  by (simp add: filter_or_top3_def sorted_reverse_def score_key_def)

lemma ex_low_run:
  "evaluator_agent (json_lib low_scores) (Inr (ustr ''[...]'')) four_sources_state =
     Inr (four_sources_state\<lparr>sources :=
       [source_b\<lparr>score := Some 0.5\<rparr>, source_d\<lparr>score := Some 0.5\<rparr>, source_a\<lparr>score := Some 0.3\<rparr>]\<rparr>)"
proof -
  have p: "parse_json (json_lib low_scores) (ustr ''[...]'') = Inr low_scores"
    by (simp add: json_lib_def)
  have n: "sources four_sources_state \<noteq> []" by (simp add: four_sources_state_def)
  have t: "to_score_items (sources four_sources_state) \<noteq> []" by (simp add: ex_to_score)
  have "evaluator_agent (json_lib low_scores) (Inr (ustr ''[...]'')) four_sources_state =
     Inr (four_sources_state\<lparr>sources := filter_or_top3
       (kept_on_success (build_score_map (json_lib low_scores) (score_list low_scores) Map.empty)
          (sources four_sources_state))\<rparr>)"
    unfolding evaluator_agent_def by (simp add: n t p)
  then show ?thesis
    by (simp only: ex_low_map ex_low_kept ex_low_top3)
qed

lemma evaluator_agent_success:
  assumes "\<exists>src \<in> set (sources state). score src = None"
    and "parse_json py raw = Inr scores"
  shows "evaluator_agent py (Inr raw) state =
           Inr (state\<lparr>sources := filter_or_top3
             (kept_on_success (build_score_map py (score_list scores) Map.empty) (sources state))\<rparr>)"
proof -
  from assms(1) have "sources state \<noteq> []" by auto
  moreover from assms(1) have "to_score_items (sources state) \<noteq> []"
    by (simp add: to_score_items_empty_iff)
  ultimately show ?thesis using assms(2) by (simp add: evaluator_agent_def)
qed

lemma evaluator_agent_failure:
  assumes "\<exists>src \<in> set (sources state). score src = None"
    and "parse_json py raw = Inl msg"
  shows "evaluator_agent py (Inr raw) state =
           Inr (state\<lparr>sources := kept_on_failure msg (sources state)\<rparr>)"
proof -
  from assms(1) have "sources state \<noteq> []" by auto
  moreover from assms(1) have "to_score_items (sources state) \<noteq> []"
    by (simp add: to_score_items_empty_iff)
  ultimately show ?thesis using assms(2) by (simp add: evaluator_agent_def)
qed

lemma filter_or_top3_spec:
  "(filter (\<lambda>s. 0.6 \<le> score_key s) kept \<noteq> []
      \<longrightarrow> filter_or_top3 kept = filter (\<lambda>s. 0.6 \<le> score_key s) kept)
   \<and> (filter (\<lambda>s. 0.6 \<le> score_key s) kept = [] \<longrightarrow>
        (\<exists>ranked. filter_or_top3 kept = take 3 ranked
           \<and> mset ranked = mset kept
           \<and> sorted_wrt (\<lambda>a b. score_key b \<le> score_key a) ranked
           \<and> (\<forall>v. filter (\<lambda>s. score_key s = v) ranked = filter (\<lambda>s. score_key s = v) kept)))"
proof -
  have "\<exists>ranked. take 3 (sorted_reverse score_key kept) = take 3 ranked
           \<and> mset ranked = mset kept
           \<and> sorted_wrt (\<lambda>a b. score_key b \<le> score_key a) ranked
           \<and> (\<forall>v. filter (\<lambda>s. score_key s = v) ranked = filter (\<lambda>s. score_key s = v) kept)"
    using sorted_reverse_mset [of score_key kept] sorted_reverse_descending [of score_key kept]
      sorted_reverse_stable [of score_key _ kept]
    by blast
  then show ?thesis by (simp add: filter_or_top3_def Let_def)
qed

text \<open>
  Claim C1, amended. Let some source of the state be unscored, so that \<^verbatim>\<open>evaluator_agent\<close>
  asks for scores, and let the generation return \<open>raw\<close>. If \<open>raw\<close> parses, the new
  \<^verbatim>\<open>sources\<close> are the kept sources with score at least 0.6, in their order in \<^verbatim>\<open>kept\<close>;
  if there is none, they are the first three of the kept sources ranked by descending
  score, sources of equal score in their order in \<^verbatim>\<open>kept\<close>. If \<open>raw\<close> does not parse,
  the new \<^verbatim>\<open>sources\<close> are all sources, unfiltered: the already scored ones, then the
  unscored ones with score 0.3 and the \<^verbatim>\<open>eval_error\<close> note.
\<close>

theorem evaluator_filter_policy:
  "\<exists>src \<in> set (sources state). score src = None \<Longrightarrow>
   (\<forall>scores. parse_json py raw = Inr scores \<longrightarrow>
      (\<exists>state' kept.
          evaluator_agent py (Inr raw) state = Inr state'
          \<and> kept = kept_on_success (build_score_map py (score_list scores) Map.empty)
                     (sources state)
          \<and> (filter (\<lambda>s. 0.6 \<le> score_key s) kept \<noteq> []
                \<longrightarrow> sources state' = filter (\<lambda>s. 0.6 \<le> score_key s) kept)
          \<and> (filter (\<lambda>s. 0.6 \<le> score_key s) kept = [] \<longrightarrow>
                (\<exists>ranked. sources state' = take 3 ranked
                   \<and> mset ranked = mset kept
                   \<and> sorted_wrt (\<lambda>a b. score_key b \<le> score_key a) ranked
                   \<and> (\<forall>v. filter (\<lambda>s. score_key s = v) ranked
                           = filter (\<lambda>s. score_key s = v) kept)))))
   \<and> (\<forall>msg. parse_json py raw = Inl msg \<longrightarrow>
         evaluator_agent py (Inr raw) state =
           Inr (state\<lparr>sources :=
                  filter (\<lambda>src. score src \<noteq> None) (sources state) @
                  map (\<lambda>src. src\<lparr>score := Some 0.3,
                                 eval_error := Some (ustr ''JSON parse failed: '' @ msg)\<rparr>)
                      (filter (\<lambda>src. score src = None) (sources state))\<rparr>))"
proof -
  assume u: "\<exists>src \<in> set (sources state). score src = None"
  have a: "\<exists>state' kept.
          evaluator_agent py (Inr raw) state = Inr state'
          \<and> kept = kept_on_success (build_score_map py (score_list scores) Map.empty)
                     (sources state)
          \<and> (filter (\<lambda>s. 0.6 \<le> score_key s) kept \<noteq> []
                \<longrightarrow> sources state' = filter (\<lambda>s. 0.6 \<le> score_key s) kept)
          \<and> (filter (\<lambda>s. 0.6 \<le> score_key s) kept = [] \<longrightarrow>
                (\<exists>ranked. sources state' = take 3 ranked
                   \<and> mset ranked = mset kept
                   \<and> sorted_wrt (\<lambda>a b. score_key b \<le> score_key a) ranked
                   \<and> (\<forall>v. filter (\<lambda>s. score_key s = v) ranked
                           = filter (\<lambda>s. score_key s = v) kept)))"
    if p: "parse_json py raw = Inr scores" for scores
    using evaluator_agent_success [OF u p]
      filter_or_top3_spec [of "kept_on_success (build_score_map py (score_list scores) Map.empty)
                     (sources state)"]
    by simp
  have b: "evaluator_agent py (Inr raw) state =
           Inr (state\<lparr>sources :=
                  filter (\<lambda>src. score src \<noteq> None) (sources state) @
                  map (\<lambda>src. src\<lparr>score := Some 0.3,
                                 eval_error := Some (ustr ''JSON parse failed: '' @ msg)\<rparr>)
                      (filter (\<lambda>src. score src = None) (sources state))\<rparr>)"
    if p: "parse_json py raw = Inl msg" for msg
    using evaluator_agent_failure [OF u p] by (simp only: kept_on_failure_eq)
  from a b show ?thesis by blast
qed

lemma ex_rescored_failure:
  "evaluator_agent ascii_lib (Inr (ustr ''I cannot score these sources.'')) rescored_state =
     Inr (rescored_state\<lparr>sources :=
       [source_a\<lparr>score := Some 0.9\<rparr>,
        source_b\<lparr>score := Some 0.3,
                 eval_error := Some (ustr ''JSON parse failed: Expecting value: line 1 column 1 (char 0)'')\<rparr>]\<rparr>)"
proof -
  have "to_score_items (sources rescored_state) =
      [\<lparr>item_id = 1, item_url = ustr ''https://b.example'', item_snippet = ustr ''B''\<rparr>]"
    by (simp add: to_score_items_def rescored_state_def source_a_def source_b_def ustr_def)
  moreover have "already_scored (sources rescored_state) = [source_a\<lparr>score := Some 0.9\<rparr>]"
    by (simp add: already_scored_filter rescored_state_def source_a_def source_b_def
        del: not_None_eq)
  moreover have "parse_json ascii_lib (ustr ''I cannot score these sources.'')
      = Inl (ustr ''Expecting value: line 1 column 1 (char 0)'')"
    by (simp add: ascii_lib_def ustr_def)
  moreover have "sources rescored_state ! 1 = source_b"
    by (simp add: rescored_state_def)
  moreover have "sources rescored_state \<noteq> []" by (simp add: rescored_state_def)
  ultimately show ?thesis
    by (simp add: evaluator_agent_def kept_on_failure_def ustr_def)
qed

text \<open>
  Claim C1 as stated fails on the parse-failure path: with one source scored 0.9 and one
  unscored source, an answer that is no JSON leaves both sources in the state, the second
  with score 0.3, where the filter of the claim would keep the first only.
\<close>

theorem evaluator_parse_failure_counterexample:
  "evaluator_agent ascii_lib (Inr (ustr ''I cannot score these sources.'')) rescored_state =
     Inr (rescored_state\<lparr>sources :=
       [source_a\<lparr>score := Some 0.9\<rparr>,
        source_b\<lparr>score := Some 0.3,
                 eval_error := Some (ustr ''JSON parse failed: Expecting value: line 1 column 1 (char 0)'')\<rparr>]\<rparr>)
   \<and> filter (\<lambda>s. 0.6 \<le> score_key s)
       [source_a\<lparr>score := Some 0.9\<rparr>,
        source_b\<lparr>score := Some 0.3,
                 eval_error := Some (ustr ''JSON parse failed: Expecting value: line 1 column 1 (char 0)'')\<rparr>]
     = [source_a\<lparr>score := Some 0.9\<rparr>]
   \<and> [source_a\<lparr>score := Some 0.9\<rparr>,
        source_b\<lparr>score := Some 0.3,
                 eval_error := Some (ustr ''JSON parse failed: Expecting value: line 1 column 1 (char 0)'')\<rparr>]
     \<noteq> filter_or_top3
       [source_a\<lparr>score := Some 0.9\<rparr>,
        source_b\<lparr>score := Some 0.3,
                 eval_error := Some (ustr ''JSON parse failed: Expecting value: line 1 column 1 (char 0)'')\<rparr>]"
proof -
  have f: "filter (\<lambda>s. 0.6 \<le> score_key s)
       [source_a\<lparr>score := Some 0.9\<rparr>,
        source_b\<lparr>score := Some 0.3,
                 eval_error := Some (ustr ''JSON parse failed: Expecting value: line 1 column 1 (char 0)'')\<rparr>]
     = [source_a\<lparr>score := Some 0.9\<rparr>]"
    by (simp add: score_key_def)
  then have "filter_or_top3
       [source_a\<lparr>score := Some 0.9\<rparr>,
        source_b\<lparr>score := Some 0.3,
                 eval_error := Some (ustr ''JSON parse failed: Expecting value: line 1 column 1 (char 0)'')\<rparr>]
     = [source_a\<lparr>score := Some 0.9\<rparr>]"
    by (simp only: filter_or_top3_def Let_def) simp
  with f ex_rescored_failure show ?thesis by simp
qed

text \<open>
  Four unscored sources that all get scores below 0.6, so that the best three are kept; and
  the state of the counterexample, where the answer does not parse.
\<close>

theorem evaluator_filter_policy_witness:
  "source_a \<in> set (sources four_sources_state) \<and> score source_a = None
   \<and> parse_json (json_lib low_scores) (ustr ''[...]'') = Inr low_scores
   \<and> filter (\<lambda>s. 0.6 \<le> score_key s)
        (kept_on_success (build_score_map (json_lib low_scores) (score_list low_scores) Map.empty)
           (sources four_sources_state)) = []
   \<and> evaluator_agent (json_lib low_scores) (Inr (ustr ''[...]'')) four_sources_state =
       Inr (four_sources_state\<lparr>sources :=
         [source_b\<lparr>score := Some 0.5\<rparr>, source_d\<lparr>score := Some 0.5\<rparr>,
          source_a\<lparr>score := Some 0.3\<rparr>]\<rparr>)
   \<and> (\<exists>ranked. [source_b\<lparr>score := Some 0.5\<rparr>, source_d\<lparr>score := Some 0.5\<rparr>,
                 source_a\<lparr>score := Some 0.3\<rparr>] = take 3 ranked
         \<and> mset ranked = mset [source_a\<lparr>score := Some 0.3\<rparr>, source_b\<lparr>score := Some 0.5\<rparr>,
                                source_c\<lparr>score := Some 0.2\<rparr>, source_d\<lparr>score := Some 0.5\<rparr>]
         \<and> sorted_wrt (\<lambda>a b. score_key b \<le> score_key a) ranked)
   \<and> source_b \<in> set (sources rescored_state) \<and> score source_b = None
   \<and> parse_json ascii_lib (ustr ''I cannot score these sources.'') = Inl (ustr ''Expecting value: line 1 column 1 (char 0)'')
   \<and> evaluator_agent ascii_lib (Inr (ustr ''I cannot score these sources.'')) rescored_state =
       Inr (rescored_state\<lparr>sources :=
         [source_a\<lparr>score := Some 0.9\<rparr>,
          source_b\<lparr>score := Some 0.3,
                   eval_error := Some (ustr ''JSON parse failed: Expecting value: line 1 column 1 (char 0)'')\<rparr>]\<rparr>)"
proof -
  let ?kept = "kept_on_success (build_score_map (json_lib low_scores) (score_list low_scores) Map.empty)
           (sources four_sources_state)"
  have m: "source_a \<in> set (sources four_sources_state)" "score source_a = None"
    by (simp_all add: four_sources_state_def source_a_def)
  then have u: "\<exists>src \<in> set (sources four_sources_state). score src = None" by blast
  have p: "parse_json (json_lib low_scores) (ustr ''[...]'') = Inr low_scores"
    by (simp add: json_lib_def)
  have k: "?kept = [source_a\<lparr>score := Some 0.3\<rparr>, source_b\<lparr>score := Some 0.5\<rparr>,
                    source_c\<lparr>score := Some 0.2\<rparr>, source_d\<lparr>score := Some 0.5\<rparr>]"
    by (simp only: ex_low_map ex_low_kept)
  have g: "filter (\<lambda>s. 0.6 \<le> score_key s) ?kept = []"
    unfolding k by (simp add: score_key_def)
  from evaluator_filter_policy [OF u, of "json_lib low_scores" "ustr ''[...]''"] p g
  obtain state' ranked where
    r: "evaluator_agent (json_lib low_scores) (Inr (ustr ''[...]'')) four_sources_state = Inr state'"
      "sources state' = take 3 ranked" "mset ranked = mset ?kept"
      "sorted_wrt (\<lambda>a b. score_key b \<le> score_key a) ranked"
    by blast
  from r(1) ex_low_run have "sources state' =
      [source_b\<lparr>score := Some 0.5\<rparr>, source_d\<lparr>score := Some 0.5\<rparr>, source_a\<lparr>score := Some 0.3\<rparr>]"
    by auto
  with r(2,3,4) k have first: "\<exists>ranked. [source_b\<lparr>score := Some 0.5\<rparr>, source_d\<lparr>score := Some 0.5\<rparr>,
                 source_a\<lparr>score := Some 0.3\<rparr>] = take 3 ranked
         \<and> mset ranked = mset [source_a\<lparr>score := Some 0.3\<rparr>, source_b\<lparr>score := Some 0.5\<rparr>,
                                source_c\<lparr>score := Some 0.2\<rparr>, source_d\<lparr>score := Some 0.5\<rparr>]
         \<and> sorted_wrt (\<lambda>a b. score_key b \<le> score_key a) ranked"
    by metis
  have m2: "source_b \<in> set (sources rescored_state)" "score source_b = None"
    by (simp_all add: rescored_state_def source_b_def)
  then have u2: "\<exists>src \<in> set (sources rescored_state). score src = None" by blast
  have p2: "parse_json ascii_lib (ustr ''I cannot score these sources.'') = Inl (ustr ''Expecting value: line 1 column 1 (char 0)'')"
    by (simp add: ascii_lib_def ustr_def)
  from evaluator_filter_policy [OF u2, of ascii_lib "ustr ''I cannot score these sources.''"] p2
  have "evaluator_agent ascii_lib (Inr (ustr ''I cannot score these sources.'')) rescored_state =
           Inr (rescored_state\<lparr>sources :=
                  filter (\<lambda>src. score src \<noteq> None) (sources rescored_state) @
                  map (\<lambda>src. src\<lparr>score := Some 0.3,
                                 eval_error := Some (ustr ''JSON parse failed: '' @ ustr ''Expecting value: line 1 column 1 (char 0)'')\<rparr>)
                      (filter (\<lambda>src. score src = None) (sources rescored_state))\<rparr>)"
    by blast
  then have second: "evaluator_agent ascii_lib (Inr (ustr ''I cannot score these sources.'')) rescored_state =
       Inr (rescored_state\<lparr>sources :=
         [source_a\<lparr>score := Some 0.9\<rparr>,
          source_b\<lparr>score := Some 0.3,
                   eval_error := Some (ustr ''JSON parse failed: Expecting value: line 1 column 1 (char 0)'')\<rparr>]\<rparr>)"
    by (simp add: rescored_state_def source_a_def source_b_def ustr_def del: not_None_eq)
  from m p g ex_low_run first m2 p2 second show ?thesis by blast
qed

section \<open>The evaluator: scores from the model answer\<close>

text \<open>
  All four scores are below 0.6 and the three best sources remain.
\<close>

theorem evaluator_never_empties_sources_witness:
  "sources four_sources_state \<noteq> []
   \<and> evaluator_agent (json_lib low_scores) (Inr (ustr ''[...]'')) four_sources_state =
       Inr (four_sources_state\<lparr>sources :=
         [source_b\<lparr>score := Some 0.5\<rparr>, source_d\<lparr>score := Some 0.5\<rparr>,
          source_a\<lparr>score := Some 0.3\<rparr>]\<rparr>)
   \<and> sources (four_sources_state\<lparr>sources :=
         [source_b\<lparr>score := Some 0.5\<rparr>, source_d\<lparr>score := Some 0.5\<rparr>,
          source_a\<lparr>score := Some 0.3\<rparr>]\<rparr>) \<noteq> []"
proof -
  have n: "sources four_sources_state \<noteq> []" by (simp add: four_sources_state_def)
  from evaluator_never_empties_sources [OF n, of "json_lib low_scores" "Inr (ustr ''[...]'')"]
    ex_low_run
  have "sources (four_sources_state\<lparr>sources :=
         [source_b\<lparr>score := Some 0.5\<rparr>, source_d\<lparr>score := Some 0.5\<rparr>,
          source_a\<lparr>score := Some 0.3\<rparr>]\<rparr>) \<noteq> []"
    by blast
  with n ex_low_run show ?thesis by blast
qed

lemma clamp_range: "0 \<le> clamp x \<and> clamp x \<le> 1"
  by (cases x) auto

lemma clamp_fin: "clamp (Fin x) = (if x < 0 then 0 else if 1 < x then 1 else x)"
  by auto

lemma score_entry_iff:
  "score_entry py obj = Some (k, v) \<longleftrightarrow>
     (\<exists>sv f iv. subscript obj (ustr ''score'') = Some sv \<and> py_float py sv = Some f
        \<and> subscript obj (ustr ''id'') = Some iv \<and> py_int py iv = Some k \<and> v = clamp f)"
  by (auto simp: score_entry_def split: option.splits)

lemma score_entry_none_iff:
  "score_entry py obj = None \<longleftrightarrow>
     (case subscript obj (ustr ''score'') of None \<Rightarrow> True | Some sv \<Rightarrow> py_float py sv = None)
     \<or> (case subscript obj (ustr ''id'') of None \<Rightarrow> True | Some iv \<Rightarrow> py_int py iv = None)"
  by (auto simp: score_entry_def split: option.splits)

lemma build_score_map_eq:
  "build_score_map py objs m = m ++ map_of (rev (List.map_filter (score_entry py) objs))"
proof (induction objs arbitrary: m)
  case Nil
  show ?case by simp
next
  case (Cons obj objs)
  show ?case
  proof (cases "score_entry py obj")
    case None
    with Cons.IH [of m] show ?thesis by simp
  next
    case (Some kv)
    obtain k v where kv: "kv = (k, v)" by (cases kv)
    let ?rest = "rev (List.map_filter (score_entry py) objs)"
    have "build_score_map py (obj # objs) m = build_score_map py objs (m(k \<mapsto> v))"
      using Some kv by simp
    also have "\<dots> = m(k \<mapsto> v) ++ map_of ?rest"
      by (rule Cons.IH)
    also have "\<dots> = m ++ map_of (?rest @ [(k, v)])"
      by (simp add: map_add_def fun_eq_iff split: option.splits)
    also have "?rest @ [(k, v)] = rev (List.map_filter (score_entry py) (obj # objs))"
      using Some kv by simp
    finally show ?thesis .
  qed
qed

lemma build_score_map_range:
  "build_score_map py objs Map.empty k = Some v \<Longrightarrow> 0 \<le> v \<and> v \<le> 1"
proof -
  assume "build_score_map py objs Map.empty k = Some v"
  then have "map_of (rev (List.map_filter (score_entry py) objs)) k = Some v"
    by (simp add: build_score_map_eq)
  then have "(k, v) \<in> set (rev (List.map_filter (score_entry py) objs))"
    by (rule map_of_SomeD)
  then obtain obj where "score_entry py obj = Some (k, v)"
    by (auto simp: List.map_filter_def)
  then show ?thesis using clamp_range by (auto simp: score_entry_iff)
qed

lemma filter_or_top3_subset: "set (filter_or_top3 kept) \<subseteq> set kept"
proof -
  have "set (take 3 (sorted_reverse score_key kept)) \<subseteq> set kept"
    using set_take_subset [of 3 "sorted_reverse score_key kept"]
    by (simp add: sorted_reverse_def)
  then show ?thesis by (auto simp: filter_or_top3_def Let_def)
qed

lemma kept_on_success_fields:
  assumes "src' \<in> set (kept_on_success m srcs)"
  shows "\<exists>src \<in> set srcs. src' = src\<lparr>score := score src'\<rparr>"
proof -
  from assms consider "src' \<in> set srcs"
    | i src where "(i, src) \<in> set (enumerate 0 srcs)"
        "src' = src\<lparr>score := Some (case m (int i) of None \<Rightarrow> 0.3 | Some v \<Rightarrow> v)\<rparr>"
    by (auto simp: kept_on_success_eq)
  then show ?thesis
  proof cases
    case 1
    then show ?thesis by (intro bexI [of _ src']) simp_all
  next
    case 2
    from 2(1) have "src \<in> set srcs" by (auto simp: in_set_enumerate_eq)
    with 2(2) show ?thesis by (intro bexI [of _ src]) simp_all
  qed
qed

text \<open>
  Claim C5. The value stored for an entry is its score coerced to a float and clamped, which
  lies in [0, 1]: 0 for a number below 0, 1 for a number above 1. An entry is stored exactly
  when the object has both keys and both coercions succeed; the score map holds the stored
  entries and nothing else, a later entry for an id replacing an earlier one. When the
  answer parses to a JSON array, the scored list from which the state's sources are chosen
  is: the sources that had a score, unchanged, followed by each unscored source with its
  score set to the map's value for its index, or to 0.3 when the map has none. No other
  field of a source changes on this path, so no \<^verbatim>\<open>eval_error\<close> is added.
\<close>

theorem evaluator_score_map_policy:
  "(\<forall>x. 0 \<le> clamp x \<and> clamp x \<le> 1)
   \<and> (\<forall>x. clamp (Fin x) = (if x < 0 then 0 else if 1 < x then 1 else x))
   \<and> (\<forall>obj k v. score_entry py obj = Some (k, v) \<longleftrightarrow>
         (\<exists>sv f iv. subscript obj (ustr ''score'') = Some sv \<and> py_float py sv = Some f
            \<and> subscript obj (ustr ''id'') = Some iv \<and> py_int py iv = Some k \<and> v = clamp f))
   \<and> (\<forall>obj. score_entry py obj = None \<longleftrightarrow>
         (case subscript obj (ustr ''score'') of
            None \<Rightarrow> True | Some sv \<Rightarrow> py_float py sv = None)
         \<or> (case subscript obj (ustr ''id'') of
               None \<Rightarrow> True | Some iv \<Rightarrow> py_int py iv = None))
   \<and> (\<forall>obj rest score_map. score_entry py obj = None \<longrightarrow>
         build_score_map py (obj # rest) score_map = build_score_map py rest score_map)
   \<and> build_score_map py objs Map.empty = map_of (rev (List.map_filter (score_entry py) objs))
   \<and> (\<forall>k v. build_score_map py objs Map.empty k = Some v \<longrightarrow> 0 \<le> v \<and> v \<le> 1)
   \<and> (parse_json py raw = Inr (JArr objs) \<and> (\<exists>src \<in> set (sources state). score src = None)
        \<longrightarrow> evaluator_agent py (Inr raw) state =
              Inr (state\<lparr>sources := filter_or_top3
                (filter (\<lambda>src. score src \<noteq> None) (sources state) @
                 map (\<lambda>(i, src). src\<lparr>score := Some
                        (case build_score_map py objs Map.empty (int i) of
                           None \<Rightarrow> 0.3 | Some v \<Rightarrow> v)\<rparr>)
                   (filter (\<lambda>(i, src). score src = None) (enumerate 0 (sources state))))\<rparr>)
            \<and> (\<forall>state'. evaluator_agent py (Inr raw) state = Inr state' \<longrightarrow>
                  (\<forall>src' \<in> set (sources state').
                     \<exists>src \<in> set (sources state). src' = src\<lparr>score := score src'\<rparr>)))"
proof -
  have e: "evaluator_agent py (Inr raw) state =
              Inr (state\<lparr>sources := filter_or_top3
                (filter (\<lambda>src. score src \<noteq> None) (sources state) @
                 map (\<lambda>(i, src). src\<lparr>score := Some
                        (case build_score_map py objs Map.empty (int i) of
                           None \<Rightarrow> 0.3 | Some v \<Rightarrow> v)\<rparr>)
                   (filter (\<lambda>(i, src). score src = None) (enumerate 0 (sources state))))\<rparr>)"
    if p: "parse_json py raw = Inr (JArr objs)"
      and u: "\<exists>src \<in> set (sources state). score src = None"
    using evaluator_agent_success [OF u p] by (simp only: kept_on_success_eq score_list.simps)
  have f: "\<exists>src \<in> set (sources state). src' = src\<lparr>score := score src'\<rparr>"
    if p: "parse_json py raw = Inr (JArr objs)"
      and u: "\<exists>src \<in> set (sources state). score src = None"
      and r: "evaluator_agent py (Inr raw) state = Inr state'"
      and m: "src' \<in> set (sources state')" for state' src'
  proof -
    from evaluator_agent_success [OF u p] r
    have "sources state' = filter_or_top3
        (kept_on_success (build_score_map py (score_list (JArr objs)) Map.empty) (sources state))"
      by auto
    with m filter_or_top3_subset [of "kept_on_success
        (build_score_map py (score_list (JArr objs)) Map.empty) (sources state)"]
    have "src' \<in> set (kept_on_success (build_score_map py (score_list (JArr objs)) Map.empty)
        (sources state))"
      by auto
    then show ?thesis by (rule kept_on_success_fields)
  qed
  have g: "build_score_map py objs Map.empty = map_of (rev (List.map_filter (score_entry py) objs))"
    by (simp add: build_score_map_eq)
  have d: "build_score_map py (obj # rest) score_map = build_score_map py rest score_map"
    if "score_entry py obj = None" for obj rest score_map
    using that by simp
  have c: "(\<forall>x. 0 \<le> clamp x \<and> clamp x \<le> 1)
      \<and> (\<forall>x. clamp (Fin x) = (if x < 0 then 0 else if 1 < x then 1 else x))"
    using clamp_range clamp_fin by blast
  have s1: "\<forall>obj k v. score_entry py obj = Some (k, v) \<longleftrightarrow>
         (\<exists>sv f iv. subscript obj (ustr ''score'') = Some sv \<and> py_float py sv = Some f
            \<and> subscript obj (ustr ''id'') = Some iv \<and> py_int py iv = Some k \<and> v = clamp f)"
    using score_entry_iff [of py] by blast
  have s2: "\<forall>obj. score_entry py obj = None \<longleftrightarrow>
         (case subscript obj (ustr ''score'') of
            None \<Rightarrow> True | Some sv \<Rightarrow> py_float py sv = None)
         \<or> (case subscript obj (ustr ''id'') of
               None \<Rightarrow> True | Some iv \<Rightarrow> py_int py iv = None)"
    using score_entry_none_iff [of py] by blast
  have r: "\<forall>k v. build_score_map py objs Map.empty k = Some v \<longrightarrow> 0 \<le> v \<and> v \<le> 1"
    using build_score_map_range [of py objs] by blast
  have last: "parse_json py raw = Inr (JArr objs) \<and> (\<exists>src \<in> set (sources state). score src = None)
        \<longrightarrow> evaluator_agent py (Inr raw) state =
              Inr (state\<lparr>sources := filter_or_top3
                (filter (\<lambda>src. score src \<noteq> None) (sources state) @
                 map (\<lambda>(i, src). src\<lparr>score := Some
                        (case build_score_map py objs Map.empty (int i) of
                           None \<Rightarrow> 0.3 | Some v \<Rightarrow> v)\<rparr>)
                   (filter (\<lambda>(i, src). score src = None) (enumerate 0 (sources state))))\<rparr>)
            \<and> (\<forall>state'. evaluator_agent py (Inr raw) state = Inr state' \<longrightarrow>
                  (\<forall>src' \<in> set (sources state').
                     \<exists>src \<in> set (sources state). src' = src\<lparr>score := score src'\<rparr>))"
    using e f by blast
  from d have d': "\<forall>obj rest score_map. score_entry py obj = None \<longrightarrow>
         build_score_map py (obj # rest) score_map = build_score_map py rest score_map"
    by blast
  show ?thesis
    by (intro conjI) (use c s1 s2 d' g r last in \<open>blast+\<close>)
qed

lemma ex_mixed_kept:
  "filter (\<lambda>src. score src \<noteq> None) (sources four_sources_state) @
     map (\<lambda>(i, src). src\<lparr>score := Some (case [0 \<mapsto> 1, 3 \<mapsto> 0] (int i) of
                                          None \<Rightarrow> 0.3 | Some v \<Rightarrow> v)\<rparr>)
       (filter (\<lambda>(i, src). score src = None) (enumerate 0 (sources four_sources_state)))
   = [source_a\<lparr>score := Some 1\<rparr>, source_b\<lparr>score := Some 0.3\<rparr>,
      source_c\<lparr>score := Some 0.3\<rparr>, source_d\<lparr>score := Some 0\<rparr>]"
  by (simp add: four_sources_state_def source_a_def source_b_def source_c_def source_d_def)

lemma ex_mixed_filter:
  "filter_or_top3 [source_a\<lparr>score := Some 1\<rparr>, source_b\<lparr>score := Some 0.3\<rparr>,
      source_c\<lparr>score := Some 0.3\<rparr>, source_d\<lparr>score := Some 0\<rparr>]
   = [source_a\<lparr>score := Some 1\<rparr>]"
  by (simp add: filter_or_top3_def score_key_def)

text \<open>
  An answer with a score above 1, an id that is no number, a score that is no number, a
  score below 0 and an element that is no object, for four unscored sources.
\<close>

theorem evaluator_score_map_policy_witness:
  "parse_json (json_lib (JArr mixed_entries)) (ustr ''[...]'') = Inr (JArr mixed_entries)
   \<and> source_a \<in> set (sources four_sources_state) \<and> score source_a = None
   \<and> build_score_map (json_lib (JArr mixed_entries)) mixed_entries Map.empty = [0 \<mapsto> 1, 3 \<mapsto> 0]
   \<and> evaluator_agent (json_lib (JArr mixed_entries)) (Inr (ustr ''[...]'')) four_sources_state =
       Inr (four_sources_state\<lparr>sources := filter_or_top3
          [source_a\<lparr>score := Some 1\<rparr>, source_b\<lparr>score := Some 0.3\<rparr>,
           source_c\<lparr>score := Some 0.3\<rparr>, source_d\<lparr>score := Some 0\<rparr>]\<rparr>)
   \<and> evaluator_agent (json_lib (JArr mixed_entries)) (Inr (ustr ''[...]'')) four_sources_state =
       Inr (four_sources_state\<lparr>sources := [source_a\<lparr>score := Some 1\<rparr>]\<rparr>)"
proof -
  let ?py = "json_lib (JArr mixed_entries)"
  have p: "parse_json ?py (ustr ''[...]'') = Inr (JArr mixed_entries)"
    by (simp add: json_lib_def)
  have m: "source_a \<in> set (sources four_sources_state)" "score source_a = None"
    by (simp_all add: four_sources_state_def source_a_def)
  then have u: "\<exists>src \<in> set (sources four_sources_state). score src = None" by blast
  from evaluator_score_map_policy [of ?py mixed_entries "ustr ''[...]''" four_sources_state] p u
  have "evaluator_agent ?py (Inr (ustr ''[...]'')) four_sources_state =
      Inr (four_sources_state\<lparr>sources := filter_or_top3
        (filter (\<lambda>src. score src \<noteq> None) (sources four_sources_state) @
         map (\<lambda>(i, src). src\<lparr>score := Some
                (case build_score_map ?py mixed_entries Map.empty (int i) of
                   None \<Rightarrow> 0.3 | Some v \<Rightarrow> v)\<rparr>)
           (filter (\<lambda>(i, src). score src = None) (enumerate 0 (sources four_sources_state))))\<rparr>)"
    by blast
  then have r: "evaluator_agent ?py (Inr (ustr ''[...]'')) four_sources_state =
       Inr (four_sources_state\<lparr>sources := filter_or_top3
          [source_a\<lparr>score := Some 1\<rparr>, source_b\<lparr>score := Some 0.3\<rparr>,
           source_c\<lparr>score := Some 0.3\<rparr>, source_d\<lparr>score := Some 0\<rparr>]\<rparr>)"
    by (simp only: ex_mixed_map ex_mixed_kept)
  then have "evaluator_agent ?py (Inr (ustr ''[...]'')) four_sources_state =
       Inr (four_sources_state\<lparr>sources := [source_a\<lparr>score := Some 1\<rparr>]\<rparr>)"
    by (simp only: ex_mixed_filter)
  with p m ex_mixed_map r show ?thesis by blast
qed

end
